theory Spec2Isabelle
  imports Complex_Main
begin

section \<open>Brain Teaser: the SMS quiz session engine and the gateway delivery calls\<close>

text \<open>
  The development embeds four parts of the server:
  \<^item> \<^verbatim>\<open>shared/session.ts\<close>: the in-memory session store;
  \<^item> the quiz service (the module \<^verbatim>\<open>./quiz.service\<close> of the quiz module):
    \<^verbatim>\<open>getRandomQuestions\<close> and the class \<^verbatim>\<open>SmsQuizService\<close>;
  \<^item> \<^verbatim>\<open>shared/sms.ts\<close>: \<^verbatim>\<open>sendSms\<close>, \<^verbatim>\<open>subscribeUser\<close>, \<^verbatim>\<open>chargeUser\<close>;
  \<^item> the quiz routes (\<^verbatim>\<open>quizRoutes\<close>): the handler of \<^verbatim>\<open>POST /sms/incoming\<close>.

  Conventions. A string is a \<open>char list\<close>; the two functions of the platform that look
  into a string, \<^verbatim>\<open>trim\<close> and \<^verbatim>\<open>toUpperCase\<close>, are defined as they act on ASCII text
  (\<open>asciiText\<close>). JavaScript
  numbers that only count (indices, scores, attempts) are \<open>nat\<close>; configured numbers are
  \<open>int\<close> (a configured fraction is outside the model); the one product computed in
  doubles whose rounding shows, \<^verbatim>\<open>Math.random() * 100\<close>, is rounded as a double is. A
  column of the questions table may be \<^verbatim>\<open>NULL\<close>: a \<open>string option\<close>. The store is the
  plain object that the source uses, with the properties it inherits. Everything the
  environment decides (the rows the database returns, the gateway's answer to each HTTP
  call, each draw of \<^verbatim>\<open>Math.random()\<close>, the process environment) is a parameter. An
  exception is a value: \<open>Inl\<close> of a sum.
\<close>

subsection \<open>Strings\<close>

text \<open>ASCII text: every character is below \<open>0x80\<close>.\<close>

definition asciiText :: "string \<Rightarrow> bool" where
  "asciiText s = list_all (\<lambda>c. \<not> digit7 c) s"

text \<open>\<^verbatim>\<open>String.prototype.trim\<close> on ASCII text: tab, line feed, vertical tab, form feed,
  carriage return and space are removed at both ends. (The platform also removes the white
  space beyond ASCII, such as \<open>U+00A0\<close>.)\<close>

definition isWhiteSpace :: "char \<Rightarrow> bool" where
  "isWhiteSpace c = (c \<in> set [CHR 0x09, CHR 0x0A, CHR 0x0B, CHR 0x0C, CHR 0x0D, CHR '' ''])"

definition trim :: "string \<Rightarrow> string" where
  "trim s = rev (dropWhile isWhiteSpace (rev (dropWhile isWhiteSpace s)))"

text \<open>\<^verbatim>\<open>String.prototype.toUpperCase\<close> on ASCII text: the 26 small letters are mapped to
  the capitals, every other character stays. (The platform also maps the small letters beyond
  ASCII.)\<close>

definition upperChar :: "char \<Rightarrow> char" where
  "upperChar c =
     (case map_of (zip ''abcdefghijklmnopqrstuvwxyz'' ''ABCDEFGHIJKLMNOPQRSTUVWXYZ'') c of
        Some u \<Rightarrow> u
      | None \<Rightarrow> c)"

definition toUpperCase :: "string \<Rightarrow> string" where
  "toUpperCase s = map upperChar s"

text \<open>The decimal text of a number that counts, as a template literal prints it.\<close>

fun showNat :: "nat \<Rightarrow> string" where
  "showNat n =
     (if n < 10 then [''0123456789'' ! n]
      else showNat (n div 10) @ [''0123456789'' ! (n mod 10)])"

declare showNat.simps [simp del]

definition nl :: string where
  "nl = [CHR 0x0A]"

text \<open>\<^verbatim>\<open>${v}\<close> in a template literal, for a text that may be \<^verbatim>\<open>null\<close>.\<close>

definition templateText :: "string option \<Rightarrow> string" where
  "templateText v = (case v of None \<Rightarrow> ''null'' | Some s \<Rightarrow> s)"

subsection \<open>\<^verbatim>\<open>shared/session.ts\<close>\<close>

text \<open>The fields \<^verbatim>\<open>id\<close> and \<^verbatim>\<open>text\<close> of a question are \<open>qid\<close> and \<open>qtext\<close>. The text, the
  options and the correct answer come from columns that may be \<^verbatim>\<open>NULL\<close>.\<close>

record Question =
  qid :: string
  qtext :: "string option"
  options :: "string option list"
  correctAnswer :: "string option"

record QuizSession =
  phoneNumber :: string
  currentQuestionIndex :: nat
  questions :: "Question list"
  currentScore :: nat
  isCompleted :: bool
  aggregateScore :: nat

text \<open>
  \<^verbatim>\<open>sessionStore\<close> is a plain object, \<^verbatim>\<open>{}\<close>. The map holds its own properties, which
  are sessions. \<^verbatim>\<open>__proto__\<close> is never an own property: reading and assigning it go to the
  accessor that the object inherits, which reads and replaces the prototype of the object. So
  the map holds under \<^verbatim>\<open>__proto__\<close> the session object that an assignment has made the
  prototype, and nothing there as long as the prototype is \<^verbatim>\<open>Object.prototype\<close>.
\<close>

type_synonym sessionStore = "string \<rightharpoonup> QuizSession"

text \<open>What \<^verbatim>\<open>sessionStore[phoneNumber]\<close> can be.\<close>

datatype jsValue =
    JsUndefined
  | JsSession QuizSession
  | JsString string
  | JsNumber nat
  | JsBoolean bool
  | JsQuestions "Question list"
  | JsFunction string
  | JsObjectPrototype

text \<open>The names of the data properties of \<^verbatim>\<open>Object.prototype\<close>; each holds a function.\<close>

definition objectPrototypeMembers :: "string list" where
  "objectPrototypeMembers =
     [''constructor'', ''__defineGetter__'', ''__defineSetter__'', ''hasOwnProperty'',
      ''__lookupGetter__'', ''__lookupSetter__'', ''isPrototypeOf'', ''propertyIsEnumerable'',
      ''toString'', ''valueOf'', ''toLocaleString'']"

text \<open>The own properties of a session object.\<close>

definition sessionField :: "QuizSession \<Rightarrow> string \<Rightarrow> jsValue option" where
  "sessionField s name =
     (if name = ''phoneNumber'' then Some (JsString (phoneNumber s))
      else if name = ''currentQuestionIndex'' then Some (JsNumber (currentQuestionIndex s))
      else if name = ''questions'' then Some (JsQuestions (questions s))
      else if name = ''currentScore'' then Some (JsNumber (currentScore s))
      else if name = ''isCompleted'' then Some (JsBoolean (isCompleted s))
      else if name = ''aggregateScore'' then Some (JsNumber (aggregateScore s))
      else None)"

text \<open>A property that the store does not own is looked up along its prototypes: the session
  object that was made its prototype, if any, then \<^verbatim>\<open>Object.prototype\<close>.\<close>

definition inherited :: "sessionStore \<Rightarrow> string \<Rightarrow> jsValue" where
  "inherited store name =
     (case (case store ''__proto__'' of None \<Rightarrow> None | Some s \<Rightarrow> sessionField s name) of
        Some v \<Rightarrow> v
      | None \<Rightarrow> if name \<in> set objectPrototypeMembers then JsFunction name else JsUndefined)"

text \<open>\<^verbatim>\<open>getSession\<close>: \<^verbatim>\<open>sessionStore[phoneNumber]\<close>.\<close>

definition getSession :: "sessionStore \<Rightarrow> string \<Rightarrow> jsValue" where
  "getSession store phone =
     (if phone = ''__proto__''
      then (case store ''__proto__'' of None \<Rightarrow> JsObjectPrototype | Some s \<Rightarrow> JsSession s)
      else (case store phone of Some s \<Rightarrow> JsSession s | None \<Rightarrow> inherited store phone))"

text \<open>\<^verbatim>\<open>setSession\<close>: \<^verbatim>\<open>sessionStore[phoneNumber] = session\<close> makes an own property, and for
  \<^verbatim>\<open>__proto__\<close> it makes the session the prototype; either way the map is updated at the
  key.\<close>

definition setSession :: "string \<Rightarrow> QuizSession \<Rightarrow> sessionStore \<Rightarrow> sessionStore" where
  "setSession phone session store = store(phone \<mapsto> session)"

text \<open>\<^verbatim>\<open>clearSession\<close>: \<^verbatim>\<open>delete sessionStore[phoneNumber]\<close> removes an own property only, so
  it does nothing for \<^verbatim>\<open>__proto__\<close>.\<close>

definition clearSession :: "string \<Rightarrow> sessionStore \<Rightarrow> sessionStore" where
  "clearSession phone store = (if phone = ''__proto__'' then store else store(phone := None))"

text \<open>The values that are truthy: \<^verbatim>\<open>!v\<close> is false for them.\<close>

definition truthy :: "jsValue \<Rightarrow> bool" where
  "truthy v =
     (case v of
        JsUndefined \<Rightarrow> False
      | JsString t \<Rightarrow> t \<noteq> []
      | JsNumber n \<Rightarrow> n \<noteq> 0
      | JsBoolean b \<Rightarrow> b
      | _ \<Rightarrow> True)"

subsection \<open>The quiz service: the question provider and \<^verbatim>\<open>SmsQuizService\<close>\<close>

text \<open>A row of the table \<^verbatim>\<open>questions\<close>, with the columns the provider reads; all but the
  key may be \<^verbatim>\<open>NULL\<close>, and the provider copies them unchecked.\<close>

record QuestionRow =
  row_id :: string
  row_question :: "string option"
  row_optionA :: "string option"
  row_optionB :: "string option"
  row_optionC :: "string option"
  row_optionD :: "string option"
  row_answer :: "string option"

definition toQuestion :: "QuestionRow \<Rightarrow> Question" where
  "toQuestion q =
     \<lparr> qid = row_id q,
       qtext = row_question q,
       options = [row_optionA q, row_optionB q, row_optionC q, row_optionD q],
       correctAnswer = row_answer q \<rparr>"

text \<open>\<^verbatim>\<open>db.select().from(dbQuestions).limit(10)\<close>: the argument is the table as the
  database would return it without the limit.\<close>

definition getRandomQuestions :: "QuestionRow list \<Rightarrow> Question list" where
  "getRandomQuestions table = map toQuestion (take 10 table)"

text \<open>\<^verbatim>\<open>xs[i]\<close>: \<^verbatim>\<open>undefined\<close> out of range.\<close>

definition itemAt :: "'a list \<Rightarrow> nat \<Rightarrow> 'a option" where
  "itemAt xs i = (if i < length xs then Some (xs ! i) else None)"

text \<open>\<^verbatim>\<open>startQuiz\<close> returns \<^verbatim>\<open>questions[0]\<close> and the store after \<^verbatim>\<open>setSession\<close>.\<close>

definition startQuiz :: "QuestionRow list \<Rightarrow> string \<Rightarrow> sessionStore \<Rightarrow> Question option \<times> sessionStore" where
  "startQuiz table phone store =
     (let qs = getRandomQuestions table;
          session = \<lparr> phoneNumber = phone,
                      currentQuestionIndex = 0,
                      questions = qs,
                      currentScore = 0,
                      isCompleted = False,
                      aggregateScore = 0 \<rparr>
      in (itemAt qs 0, setSession phone session store))"

datatype exn = Error string | TypeError

text \<open>What \<^verbatim>\<open>processAnswer\<close> returns: the object with the field \<^verbatim>\<open>error\<close>, or the
  object with the five result fields (\<^verbatim>\<open>done\<close> is \<open>isDone\<close>).\<close>

record AnswerResult =
  correct :: bool
  nextQuestion :: "Question option"
  isDone :: bool
  score :: nat
  resultAggregate :: nat

datatype answerOutcome = NoActiveSession string | Answered AnswerResult

definition answersMatch :: "string \<Rightarrow> string \<Rightarrow> bool" where
  "answersMatch expected answer = (toUpperCase (trim expected) = toUpperCase (trim answer))"

text \<open>The assignments that \<^verbatim>\<open>processAnswer\<close> makes to the session object once the
  correct answer \<open>expected\<close> of the current question is known: score, index, and on the last
  question the completion flag and the aggregate.\<close>

definition applyAnswer :: "QuizSession \<Rightarrow> string \<Rightarrow> string \<Rightarrow> QuizSession" where
  "applyAnswer session expected answer =
     (let isCorrect = answersMatch expected answer;
          s1 = (if isCorrect then session\<lparr>currentScore := currentScore session + 1\<rparr> else session);
          s2 = s1\<lparr>currentQuestionIndex := currentQuestionIndex s1 + 1\<rparr>
      in if currentQuestionIndex s2 \<ge> length (questions s2)
         then s2\<lparr>isCompleted := True, aggregateScore := aggregateScore s2 + currentScore s2\<rparr>
         else s2)"

text \<open>
  \<^verbatim>\<open>processAnswer\<close>. What \<^verbatim>\<open>getSession\<close> returns need not be a session. A value that is
  falsy gives the error object. Any other value that is not a session has neither
  \<^verbatim>\<open>isCompleted\<close> nor \<^verbatim>\<open>questions\<close>, so indexing its \<^verbatim>\<open>questions\<close> throws a
  \<^verbatim>\<open>TypeError\<close>. For a session, reading \<^verbatim>\<open>correctAnswer\<close> of an \<^verbatim>\<open>undefined\<close> question
  and calling \<^verbatim>\<open>trim\<close> on a \<^verbatim>\<open>null\<close> answer throw a \<^verbatim>\<open>TypeError\<close> before anything is
  assigned. The assignments change the session object where the store holds it (\<open>mutated\<close>),
  before \<^verbatim>\<open>clearSession\<close> or \<^verbatim>\<open>setSession\<close> runs.
\<close>

definition processAnswer :: "string \<Rightarrow> string \<Rightarrow> sessionStore \<Rightarrow> (exn + answerOutcome) \<times> sessionStore" where
  "processAnswer phone answer store =
     (case getSession store phone of
        JsSession session \<Rightarrow>
          if isCompleted session
          then (Inr (NoActiveSession ''No active quiz session. Send START to begin.''), store)
          else (case itemAt (questions session) (currentQuestionIndex session) of
                  None \<Rightarrow> (Inl TypeError, store)
                | Some currentQ \<Rightarrow>
                    (case correctAnswer currentQ of
                       None \<Rightarrow> (Inl TypeError, store)
                     | Some expected \<Rightarrow>
                         let isCorrect = answersMatch expected answer;
                             session' = applyAnswer session expected answer;
                             mutated = store(phone \<mapsto> session');
                             finished = (currentQuestionIndex session' \<ge> length (questions session'));
                             store' = (if finished then clearSession phone mutated
                                       else setSession phone session' mutated)
                         in (Inr (Answered
                               \<lparr> correct = isCorrect,
                                 nextQuestion = (if finished then None
                                                 else itemAt (questions session')
                                                        (currentQuestionIndex session')),
                                 isDone = finished,
                                 score = currentScore session',
                                 resultAggregate = aggregateScore session' \<rparr>),
                             store')))
      | other \<Rightarrow>
          if truthy other then (Inl TypeError, store)
          else (Inr (NoActiveSession ''No active quiz session. Send START to begin.''), store))"

text \<open>A subscriber's answers one after the other; the run stops at an exception.\<close>

fun processAnswers :: "string \<Rightarrow> string list \<Rightarrow> sessionStore \<Rightarrow> (exn + answerOutcome list) \<times> sessionStore" where
  "processAnswers phone [] store = (Inr [], store)"
| "processAnswers phone (a # as) store =
     (case processAnswer phone a store of
        (res, store') \<Rightarrow>
          (case res of
             Inl e \<Rightarrow> (Inl e, store')
           | Inr r \<Rightarrow>
               (case processAnswers phone as store' of
                  (rest, store'') \<Rightarrow>
                    (case rest of
                       Inl e \<Rightarrow> (Inl e, store'')
                     | Inr rs \<Rightarrow> (Inr (r # rs), store'')))))"

text \<open>The invariant of the data model: the index is within the questions, and the session is
  completed exactly at the end.\<close>

definition sessionInv :: "QuizSession \<Rightarrow> bool" where
  "sessionInv s =
     (currentQuestionIndex s \<le> length (questions s)
      \<and> (isCompleted s = (currentQuestionIndex s = length (questions s))))"

text \<open>The stores that calls of \<^verbatim>\<open>startQuiz\<close> and \<^verbatim>\<open>processAnswer\<close> reach from the empty
  store when every start finds at least one question in the table.\<close>

inductive reachableNonEmpty :: "sessionStore \<Rightarrow> bool" where
  rne_empty: "reachableNonEmpty Map.empty"
| rne_start: "reachableNonEmpty store \<Longrightarrow> table \<noteq> [] \<Longrightarrow>
     reachableNonEmpty (snd (startQuiz table phone store))"
| rne_answer: "reachableNonEmpty store \<Longrightarrow>
     reachableNonEmpty (snd (processAnswer phone answer store))"

subsection \<open>\<^verbatim>\<open>shared/sms.ts\<close>: the calls to the gateway\<close>

text \<open>The body of a response, as far as the code reads it: whether \<^verbatim>\<open>data.success === true\<close>,
  and the fields \<^verbatim>\<open>message\<close> and \<^verbatim>\<open>error\<close>.\<close>

record ResponseData =
  data_success :: bool
  data_message :: "string option"
  data_error :: "string option"

text \<open>What \<^verbatim>\<open>axios.post\<close> does: it resolves with \<^verbatim>\<open>response.data\<close> (a status 2xx), or it
  rejects with an error, of which the code reads \<^verbatim>\<open>error.response?.status\<close>,
  \<^verbatim>\<open>error.response?.data?.message\<close> and \<^verbatim>\<open>error.message\<close>.\<close>

datatype reply =
    Resolved "ResponseData option"
  | Rejected "nat option" "string option" string

datatype plan = DAILY | WEEKLY | MONTHLY

record SendSmsOptions =
  sms_to :: string
  sms_message :: string

record UserDetails =
  msisdn :: string
  subscriptionPlan :: plan

text \<open>The three endpoints with the fields of the payload that vary:
  \<^verbatim>\<open>/v1/sms/outbound/send\<close>, \<^verbatim>\<open>/v1/subscription/outbound/create\<close> and
  \<^verbatim>\<open>/v1/charge/outbound/create\<close>.\<close>

datatype request =
    SmsOutboundSend string string
  | SubscriptionOutboundCreate string plan
  | ChargeOutboundCreate string plan

text \<open>What a call does to the outside, in order: an HTTP POST, a sleep of so many
  milliseconds, the query of the questions table.\<close>

datatype event = Post request | Sleep int | SelectQuestions

text \<open>The environment: the three variables of the retry configuration (\<open>None\<close>: unset or
  not a number), the gateway's reply to the \<open>n\<close>-th POST of a call, and the value of
  \<^verbatim>\<open>Math.random()\<close> drawn after the \<open>n\<close>-th attempt of a call.\<close>

record env =
  PISI_RETRY_MAX_ATTEMPTS :: "int option"
  PISI_RETRY_BASE_DELAY_MS :: "int option"
  PISI_RETRY_MAX_DELAY_MS :: "int option"
  gateway :: "request \<Rightarrow> nat \<Rightarrow> reply"
  random :: "request \<Rightarrow> nat \<Rightarrow> rat"

text \<open>\<^verbatim>\<open>Number(process.env.X) || d\<close>: \<^verbatim>\<open>NaN\<close> and \<open>0\<close> are falsy.\<close>

definition numberOr :: "int option \<Rightarrow> int \<Rightarrow> int" where
  "numberOr v d = (case v of None \<Rightarrow> d | Some n \<Rightarrow> if n = 0 then d else n)"

definition maxAttempts :: "env \<Rightarrow> int" where
  "maxAttempts e = numberOr (PISI_RETRY_MAX_ATTEMPTS e) 5"

definition baseDelayMs :: "env \<Rightarrow> int" where
  "baseDelayMs e = numberOr (PISI_RETRY_BASE_DELAY_MS e) 500"

definition maxDelayMs :: "env \<Rightarrow> int" where
  "maxDelayMs e = numberOr (PISI_RETRY_MAX_DELAY_MS e) 5000"

text \<open>
  \<^verbatim>\<open>Math.random() * 100\<close> is a product of doubles: the exact product rounded to the nearest
  double, a tie to the even significand. \<open>roundHalfEven\<close> rounds to a whole number that
  way. \<open>binade e x\<close> is the exponent of the doubles around \<open>x\<close>, searched downwards from
  \<open>e\<close>: the greatest \<open>k \<le> e\<close> with \<open>2 ^ k \<le> x\<close>, and \<open>- 1022\<close>, the exponent of the
  subnormal numbers, below that. \<open>roundToDouble x\<close> is then the multiple of \<open>2 ^ (k - 52)\<close>
  nearest to \<open>x\<close>; it is the rounding of doubles for \<open>0 \<le> x < 128\<close>, where the product lies.
\<close>

definition roundHalfEven :: "rat \<Rightarrow> int" where
  "roundHalfEven y =
     (let f = \<lfloor>y\<rfloor>; d = y - of_int f
      in if d < 1 / 2 then f else if 1 / 2 < d then f + 1 else if even f then f else f + 1)"

function binade :: "int \<Rightarrow> rat \<Rightarrow> int" where
  "binade e x = (if e \<le> - 1022 \<or> 2 powi e \<le> x then e else binade (e - 1) x)"
  by pat_completeness auto
termination
  by (relation "measure (\<lambda>(e, x). nat (e + 1022))") auto

declare binade.simps [simp del]

definition roundToDouble :: "rat \<Rightarrow> rat" where
  "roundToDouble x =
     (let q = 2 powi (binade 6 x - 52)
      in of_int (roundHalfEven (x / q)) * q)"

text \<open>\<^verbatim>\<open>Math.floor(Math.random() * 100)\<close>, for the double \<open>r\<close> that was drawn.\<close>

definition jitter :: "rat \<Rightarrow> int" where
  "jitter r = \<lfloor>roundToDouble (r * 100)\<rfloor>"

text \<open>\<^verbatim>\<open>computeDelay\<close>, the same closure in \<^verbatim>\<open>subscribeUser\<close> and \<^verbatim>\<open>chargeUser\<close>. The
  loops call it with \<open>attempt \<ge> 1\<close>. The sum and the product of whole numbers are those of
  doubles as long as the base delay is not negative and below \<open>2 ^ 53\<close> and the maximal delay
  is within \<open>2 ^ 53 - 100\<close> of zero (a product beyond the doubles is \<^verbatim>\<open>Infinity\<close>, and the
  minimum is then the maximal delay, as here).\<close>

definition computeDelay :: "env \<Rightarrow> rat \<Rightarrow> nat \<Rightarrow> int" where
  "computeDelay e r attempt =
     (let exp = min (maxDelayMs e) (baseDelayMs e * 2 ^ (attempt - 1))
      in exp + jitter r)"

text \<open>\<^verbatim>\<open>a || b\<close> where \<open>a\<close> is a string that may be \<^verbatim>\<open>undefined\<close>: \<open>a\<close> when it is
  truthy (defined and not empty), else \<open>b\<close>.\<close>

definition orElseStr :: "string option \<Rightarrow> string \<Rightarrow> string" where
  "orElseStr a b = (case a of None \<Rightarrow> b | Some s \<Rightarrow> if s \<noteq> [] then s else b)"

text \<open>\<^verbatim>\<open>sendSms\<close>: one POST; the data of any response that resolves is returned.\<close>

definition sendSms :: "env \<Rightarrow> SendSmsOptions \<Rightarrow> (exn + ResponseData option) \<times> event list" where
  "sendSms e opts =
     (let req = SmsOutboundSend (sms_to opts) (sms_message opts)
      in case gateway e req 1 of
           Resolved data \<Rightarrow> (Inr data, [Post req])
         | Rejected status respMessage errMessage \<Rightarrow>
             (Inl (Error (orElseStr respMessage errMessage)), [Post req]))"

text \<open>\<^verbatim>\<open>data && data.success === true\<close>.\<close>

definition succeeded :: "ResponseData option \<Rightarrow> bool" where
  "succeeded data = (case data of None \<Rightarrow> False | Some d \<Rightarrow> data_success d)"

text \<open>\<^verbatim>\<open>!status || status >= 500 || status === 429 || status === 408\<close>.\<close>

definition isRetryable :: "nat option \<Rightarrow> bool" where
  "isRetryable status =
     (case status of None \<Rightarrow> True | Some s \<Rightarrow> s = 0 \<or> s \<ge> 500 \<or> s = 429 \<or> s = 408)"

text \<open>One pass through the body of a retry loop ends in one of three ways.\<close>

datatype attemptResult = Return "ResponseData option" | Retry | Throw string

definition attemptWord :: "nat \<Rightarrow> string" where
  "attemptWord attempt = (if attempt = 1 then ''attempt'' else ''attempts'')"

text \<open>The body of the loop of \<^verbatim>\<open>subscribeUser\<close>. The error thrown inside \<^verbatim>\<open>try\<close> on the last
  attempt is caught by the \<^verbatim>\<open>catch\<close> of the same statement, as an error without a response.\<close>

definition subscribeAttempt :: "env \<Rightarrow> nat \<Rightarrow> reply \<Rightarrow> attemptResult" where
  "subscribeAttempt e attempt r =
     (let caught = (\<lambda>status respMessage errMessage.
            if isRetryable status \<and> int attempt < maxAttempts e then Retry
            else Throw (''Failed to subscribe user after '' @ showNat attempt @ '' '' @ attemptWord attempt
                        @ '': '' @ orElseStr respMessage (orElseStr (Some errMessage) ''Subscription request failed'')))
      in case r of
           Resolved data \<Rightarrow>
             if succeeded data then Return data
             else
               let nonSuccessMessage =
                     orElseStr (case data of None \<Rightarrow> None | Some d \<Rightarrow> data_message d)
                       (orElseStr (case data of None \<Rightarrow> None | Some d \<Rightarrow> data_error d)
                          ''Subscription request did not succeed'')
               in if int attempt < maxAttempts e then Retry
                  else caught None None nonSuccessMessage
         | Rejected status respMessage errMessage \<Rightarrow> caught status respMessage errMessage)"

function subscribeLoop :: "env \<Rightarrow> UserDetails \<Rightarrow> nat \<Rightarrow> (exn + ResponseData option) \<times> event list" where
  "subscribeLoop e d attempt =
     (let req = SubscriptionOutboundCreate (msisdn d) (subscriptionPlan d)
      in if int attempt \<le> maxAttempts e
         then (case subscribeAttempt e attempt (gateway e req attempt) of
                 Return data \<Rightarrow> (Inr data, [Post req])
               | Throw m \<Rightarrow> (Inl (Error m), [Post req])
               | Retry \<Rightarrow>
                   (case subscribeLoop e d (attempt + 1) of
                      (res, evs) \<Rightarrow>
                        (res, Post req # Sleep (computeDelay e (random e req attempt) attempt) # evs)))
         else (Inl (Error ''Unexpected error while subscribing user''), []))"
  by pat_completeness auto
termination
  by (relation "measure (\<lambda>(e, d, attempt). nat (maxAttempts e + 1 - int attempt))") auto

declare subscribeLoop.simps [simp del]

definition subscribeUser :: "env \<Rightarrow> UserDetails \<Rightarrow> (exn + ResponseData option) \<times> event list" where
  "subscribeUser e d = subscribeLoop e d 1"

text \<open>The body of the loop of \<^verbatim>\<open>chargeUser\<close>.\<close>

definition chargeAttempt :: "env \<Rightarrow> nat \<Rightarrow> reply \<Rightarrow> attemptResult" where
  "chargeAttempt e attempt r =
     (let caught = (\<lambda>status respMessage errMessage.
            if isRetryable status \<and> int attempt < maxAttempts e then Retry
            else Throw (''Failed to charge user after '' @ showNat attempt @ '' '' @ attemptWord attempt
                        @ '': '' @ orElseStr respMessage (orElseStr (Some errMessage) ''Charge request failed'')))
      in case r of
           Resolved data \<Rightarrow>
             if succeeded data then Return data
             else
               let nonSuccessMessage =
                     orElseStr (case data of None \<Rightarrow> None | Some d \<Rightarrow> data_message d)
                       (orElseStr (case data of None \<Rightarrow> None | Some d \<Rightarrow> data_error d)
                          ''Charge request did not succeed'')
               in if int attempt < maxAttempts e then Retry
                  else caught None None nonSuccessMessage
         | Rejected status respMessage errMessage \<Rightarrow> caught status respMessage errMessage)"

function chargeLoop :: "env \<Rightarrow> UserDetails \<Rightarrow> nat \<Rightarrow> (exn + ResponseData option) \<times> event list" where
  "chargeLoop e d attempt =
     (let req = ChargeOutboundCreate (msisdn d) (subscriptionPlan d)
      in if int attempt \<le> maxAttempts e
         then (case chargeAttempt e attempt (gateway e req attempt) of
                 Return data \<Rightarrow> (Inr data, [Post req])
               | Throw m \<Rightarrow> (Inl (Error m), [Post req])
               | Retry \<Rightarrow>
                   (case chargeLoop e d (attempt + 1) of
                      (res, evs) \<Rightarrow>
                        (res, Post req # Sleep (computeDelay e (random e req attempt) attempt) # evs)))
         else (Inl (Error ''Unexpected error while charging user''), []))"
  by pat_completeness auto
termination
  by (relation "measure (\<lambda>(e, d, attempt). nat (maxAttempts e + 1 - int attempt))") auto

declare chargeLoop.simps [simp del]

definition chargeUser :: "env \<Rightarrow> UserDetails \<Rightarrow> (exn + ResponseData option) \<times> event list" where
  "chargeUser e d = chargeLoop e d 1"

subsection \<open>The quiz routes: the handler of \<^verbatim>\<open>POST /sms/incoming\<close>\<close>

record IncomingBody =
  body_from :: "string option"
  body_message :: "string option"

datatype httpResponse = HttpResponse nat string

text \<open>Awaiting one call after the other: an exception ends the sequence, the events add up.\<close>

definition andThen :: "(exn + 'a) \<times> event list \<Rightarrow> ((exn + 'b) \<times> event list) \<Rightarrow> (exn + 'b) \<times> event list" where
  "andThen first second =
     (case first of
        (res, evs) \<Rightarrow>
          (case res of
             Inl x \<Rightarrow> (Inl x, evs)
           | Inr _ \<Rightarrow> (fst second, evs @ snd second)))"

text \<open>\<^verbatim>\<open>${q.options[i]}\<close> in a template literal.\<close>

definition optionText :: "Question \<Rightarrow> nat \<Rightarrow> string" where
  "optionText q i = (case itemAt (options q) i of None \<Rightarrow> ''undefined'' | Some v \<Rightarrow> templateText v)"

definition optionLines :: "Question \<Rightarrow> string" where
  "optionLines q =
     nl @ ''A) '' @ optionText q 0 @ nl @ ''B) '' @ optionText q 1
     @ nl @ ''C) '' @ optionText q 2 @ nl @ ''D) '' @ optionText q 3"

text \<open>The reply of a start branch; \<^verbatim>\<open>firstQ.text\<close> of an \<^verbatim>\<open>undefined\<close> question throws.\<close>

definition quizStartedMessage :: "Question option \<Rightarrow> exn + string" where
  "quizStartedMessage firstQ =
     (case firstQ of
        None \<Rightarrow> Inl TypeError
      | Some q \<Rightarrow> Inr (''Quiz started!'' @ nl @ ''Q1: '' @ templateText (qtext q) @ optionLines q))"

text \<open>A start branch after its gateway calls: \<^verbatim>\<open>startQuiz\<close>, then the reply text.\<close>

definition startBranch ::
  "QuestionRow list \<Rightarrow> sessionStore \<Rightarrow> string \<Rightarrow> (exn + ResponseData option) \<times> event list
     \<Rightarrow> (exn + string) \<times> sessionStore \<times> event list" where
  "startBranch table store sender calls =
     (case calls of
        (res, evs) \<Rightarrow>
          (case res of
             Inl x \<Rightarrow> (Inl x, store, evs)
           | Inr _ \<Rightarrow>
               (case startQuiz table sender store of
                  (firstQ, store') \<Rightarrow>
                    (quizStartedMessage firstQ, store', evs @ [SelectQuestions]))))"

text \<open>The last branch: the message is an answer.\<close>

definition answerBranch :: "sessionStore \<Rightarrow> string \<Rightarrow> string \<Rightarrow> (exn + string) \<times> sessionStore \<times> event list" where
  "answerBranch store sender message =
     (case processAnswer sender (trim message) store of
        (res, store') \<Rightarrow>
          (case res of
             Inl x \<Rightarrow> (Inl x, store', [])
           | Inr outcome \<Rightarrow>
               (case outcome of
                  NoActiveSession err \<Rightarrow> (Inr err, store', [])
                | Answered result \<Rightarrow>
                    (if isDone result
                     then Inr (''Quiz complete! Your score: '' @ showNat (score result)
                               @ ''/10. Aggregate: '' @ showNat (resultAggregate result))
                     else (case nextQuestion result of
                             Some q \<Rightarrow>
                               Inr ((if correct result then ''Correct!'' else ''Wrong!'') @ nl
                                    @ ''Q'' @ qid q @ '': '' @ templateText (qtext q)
                                    @ optionLines q)
                           | None \<Rightarrow> Inr (if correct result then ''Correct!'' else ''Wrong!'')),
                     store', []))))"

definition composeReply ::
  "env \<Rightarrow> QuestionRow list \<Rightarrow> sessionStore \<Rightarrow> string \<Rightarrow> string
     \<Rightarrow> (exn + string) \<times> sessionStore \<times> event list" where
  "composeReply e table store sender message =
     (if toUpperCase (trim message) = ''BTD'' then
        startBranch table store sender
          (andThen (sendSms e \<lparr> sms_to = sender, sms_message =
               ''Welcome to Brain Teaser! Answer simple questions and stand a chance to win fantastic prizes.'' \<rparr>)
            (andThen (subscribeUser e \<lparr> msisdn = sender, subscriptionPlan = DAILY \<rparr>)
               (chargeUser e \<lparr> msisdn = sender, subscriptionPlan = DAILY \<rparr>)))
      else if toUpperCase (trim message) = ''BTW'' then
        startBranch table store sender
          (sendSms e \<lparr> sms_to = sender, sms_message =
               ''Welcome to Brain Teaser Weekly! Answer simple questions and stand a chance to win fantastic prizes.'' \<rparr>)
      else if toUpperCase (trim message) = ''BTM'' then
        startBranch table store sender
          (sendSms e \<lparr> sms_to = sender, sms_message =
               ''Welcome to Brain Teaser Monthly! Answer simple questions and stand a chance to win fantastic prizes.'' \<rparr>)
      else answerBranch store sender message)"

text \<open>The handler: the validation, the reply text, the final \<^verbatim>\<open>sendSms\<close> and the response.\<close>

definition smsIncoming ::
  "env \<Rightarrow> QuestionRow list \<Rightarrow> sessionStore \<Rightarrow> IncomingBody
     \<Rightarrow> (exn + httpResponse) \<times> sessionStore \<times> event list" where
  "smsIncoming e table store body =
     (case (body_from body, body_message body) of
        (Some sender, Some message) \<Rightarrow>
          if sender = [] \<or> message = []
          then (Inr (HttpResponse 400 ''Missing from or message''), store, [])
          else (case composeReply e table store sender message of
                  (res, store', evs) \<Rightarrow>
                    (case res of
                       Inl x \<Rightarrow> (Inl x, store', evs)
                     | Inr responseMsg \<Rightarrow>
                         (case sendSms e \<lparr> sms_to = sender, sms_message = responseMsg \<rparr> of
                            (sent, evs') \<Rightarrow>
                              (case sent of
                                 Inl x \<Rightarrow> (Inl x, store', evs @ evs')
                               | Inr _ \<Rightarrow> (Inr (HttpResponse 200 ''ok''), store', evs @ evs')))))
      | _ \<Rightarrow> (Inr (HttpResponse 400 ''Missing from or message''), store, []))"

text \<open>The messages of one sender handled one after the other; every request gives its
  outcome and its events, and the store goes on to the next request.\<close>

fun smsIncomingAll ::
  "env \<Rightarrow> QuestionRow list \<Rightarrow> sessionStore \<Rightarrow> string \<Rightarrow> string list
     \<Rightarrow> ((exn + httpResponse) \<times> event list) list \<times> sessionStore" where
  "smsIncomingAll e table store sender [] = ([], store)"
| "smsIncomingAll e table store sender (m # ms) =
     (case smsIncoming e table store \<lparr> body_from = Some sender, body_message = Some m \<rparr> of
        (res, store', evs) \<Rightarrow>
          (case smsIncomingAll e table store' sender ms of
             (rest, store'') \<Rightarrow> ((res, evs) # rest, store'')))"

subsection \<open>Notions used to state the properties\<close>

text \<open>The classes of failure that the specification names. Retryable: a rejection without
  a status, or with a status 5xx, 429 or 408. Terminal: a rejection with any other status 4xx.\<close>

definition failsRetryably :: "reply \<Rightarrow> bool" where
  "failsRetryably r =
     (case r of
        Resolved data \<Rightarrow> False
      | Rejected status respMessage errMessage \<Rightarrow>
          (case status of
             None \<Rightarrow> True
           | Some s \<Rightarrow> (500 \<le> s \<and> s \<le> 599) \<or> s = 429 \<or> s = 408))"

definition failsTerminally :: "reply \<Rightarrow> bool" where
  "failsTerminally r =
     (case r of
        Resolved data \<Rightarrow> False
      | Rejected status respMessage errMessage \<Rightarrow>
          (case status of
             None \<Rightarrow> False
           | Some s \<Rightarrow> 400 \<le> s \<and> s \<le> 499 \<and> s \<noteq> 429 \<and> s \<noteq> 408))"

text \<open>The text that a rejection carries into the message of the error that is raised.\<close>

definition rejectionText :: "string \<Rightarrow> reply \<Rightarrow> string" where
  "rejectionText fallback r =
     (case r of
        Resolved data \<Rightarrow> fallback
      | Rejected status respMessage errMessage \<Rightarrow>
          orElseStr respMessage (orElseStr (Some errMessage) fallback))"

text \<open>The events of the attempts \<open>k, \<dots>, n - 1\<close> when each of them is retried: the POST, then
  the sleep of \<^verbatim>\<open>computeDelay\<close>.\<close>

definition retryEvents :: "env \<Rightarrow> request \<Rightarrow> nat \<Rightarrow> nat \<Rightarrow> event list" where
  "retryEvents e req k n =
     concat (map (\<lambda>i. [Post req, Sleep (computeDelay e (random e req i) i)]) [k..<n])"

text \<open>A call gives up at attempt \<open>n\<close>: the attempts before it fail retryably, and attempt
  \<open>n\<close> fails terminally, or fails retryably and is the last one allowed.\<close>

definition givesUpAt :: "env \<Rightarrow> request \<Rightarrow> nat \<Rightarrow> bool" where
  "givesUpAt e req n =
     (1 \<le> n \<and> int n \<le> maxAttempts e
      \<and> (\<forall>k\<in>{1..<n}. failsRetryably (gateway e req k))
      \<and> (failsTerminally (gateway e req n)
          \<or> (failsRetryably (gateway e req n) \<and> int n = maxAttempts e)))"

definition posts :: "event list \<Rightarrow> nat" where
  "posts evs = length (filter (\<lambda>ev. case ev of Post req \<Rightarrow> True | _ \<Rightarrow> False) evs)"

definition sleeps :: "event list \<Rightarrow> nat" where
  "sleeps evs = length (filter (\<lambda>ev. case ev of Sleep ms \<Rightarrow> True | _ \<Rightarrow> False) evs)"

text \<open>A message that the handler takes for an answer (it is not empty and not one of the
  three start keywords) and that matches the correct answer of the question.\<close>

definition answersCorrectly :: "Question \<Rightarrow> string \<Rightarrow> bool" where
  "answersCorrectly q message =
     (message \<noteq> []
      \<and> toUpperCase (trim message) \<notin> set [''BTD'', ''BTW'', ''BTM'']
      \<and> (case correctAnswer q of None \<Rightarrow> False | Some expected \<Rightarrow> answersMatch expected message))"

definition welcomeDaily :: string where
  "welcomeDaily =
     ''Welcome to Brain Teaser! Answer simple questions and stand a chance to win fantastic prizes.''"

subsection \<open>The Delivery Executor in the words of the specification\<close>

text \<open>
  A second definition, written from section 4.4 of the specification, to be compared with
  the loops of the source. An attempt is classified first: a success (the body carries the
  success indicator), a retryable failure (no success indicator in a response that resolved,
  or a rejection that \<^verbatim>\<open>isRetryable\<close> accepts), or a terminal failure. Then
  \<open>Attempt n \<rightarrow> Success\<close>, \<open>Attempt n \<rightarrow> RetryableFailure \<rightarrow> sleep (delay n) \<rightarrow> Attempt (n + 1)\<close>,
  \<open>Attempt n \<rightarrow> TerminalFailure \<rightarrow> Failed\<close> and
  \<open>Attempt maxAttempts \<rightarrow> RetryableFailure \<rightarrow> Failed\<close>. Only the wording of the errors
  and the request depend on the kind of action.
\<close>

record wording =
  afterPrefix :: string
  didNotSucceed :: string
  requestFailed :: string
  unexpectedError :: string

definition subscribeWording :: wording where
  "subscribeWording =
     \<lparr> afterPrefix = ''Failed to subscribe user after '',
       didNotSucceed = ''Subscription request did not succeed'',
       requestFailed = ''Subscription request failed'',
       unexpectedError = ''Unexpected error while subscribing user'' \<rparr>"

definition chargeWording :: wording where
  "chargeWording =
     \<lparr> afterPrefix = ''Failed to charge user after '',
       didNotSucceed = ''Charge request did not succeed'',
       requestFailed = ''Charge request failed'',
       unexpectedError = ''Unexpected error while charging user'' \<rparr>"

datatype verdict = Success "ResponseData option" | RetryableFailure string | TerminalFailure string

definition classify :: "wording \<Rightarrow> reply \<Rightarrow> verdict" where
  "classify w r =
     (case r of
        Resolved data \<Rightarrow>
          (case data of
             None \<Rightarrow> RetryableFailure (didNotSucceed w)
           | Some body \<Rightarrow>
               if data_success body then Success data
               else RetryableFailure
                      (orElseStr (data_message body) (orElseStr (data_error body) (didNotSucceed w))))
      | Rejected status respMessage errMessage \<Rightarrow>
          (if isRetryable status
           then RetryableFailure (orElseStr respMessage (orElseStr (Some errMessage) (requestFailed w)))
           else TerminalFailure (orElseStr respMessage (orElseStr (Some errMessage) (requestFailed w)))))"

definition deliveryFailed :: "wording \<Rightarrow> nat \<Rightarrow> string \<Rightarrow> exn" where
  "deliveryFailed w attempts lastMessage =
     Error (afterPrefix w @ showNat attempts @ '' '' @ attemptWord attempts @ '': '' @ lastMessage)"

function specExecute ::
  "wording \<Rightarrow> env \<Rightarrow> request \<Rightarrow> nat \<Rightarrow> (exn + ResponseData option) \<times> event list" where
  "specExecute w e req n =
     (if maxAttempts e < int n then (Inl (Error (unexpectedError w)), [])
      else (case classify w (gateway e req n) of
              Success data \<Rightarrow> (Inr data, [Post req])
            | TerminalFailure m \<Rightarrow> (Inl (deliveryFailed w n m), [Post req])
            | RetryableFailure m \<Rightarrow>
                if int n = maxAttempts e then (Inl (deliveryFailed w n m), [Post req])
                else (fst (specExecute w e req (n + 1)),
                      [Post req, Sleep (computeDelay e (random e req n) n)]
                      @ snd (specExecute w e req (n + 1)))))"
  by pat_completeness auto
termination
  by (relation "measure (\<lambda>(w, e, req, n). nat (maxAttempts e + 1 - int n))") auto

declare specExecute.simps [simp del]

subsection \<open>Example data\<close>

definition sampleRow :: "string \<Rightarrow> string \<Rightarrow> QuestionRow" where
  "sampleRow i a =
     \<lparr> row_id = i, row_question = Some ''Capital of Kenya?'', row_optionA = Some ''Nairobi'',
       row_optionB = Some ''Mombasa'', row_optionC = Some ''Kisumu'',
       row_optionD = Some ''Nakuru'', row_answer = Some a \<rparr>"

definition sampleTable :: "QuestionRow list" where
  "sampleTable =
     [sampleRow ''1'' ''A'', sampleRow ''2'' ''B'', sampleRow ''3'' ''C'', sampleRow ''4'' ''D'',
      sampleRow ''5'' ''A'', sampleRow ''6'' ''B'', sampleRow ''7'' ''C'', sampleRow ''8'' ''D'',
      sampleRow ''9'' ''A'', sampleRow ''10'' ''B'', sampleRow ''11'' ''C'']"

definition sampleSession :: QuizSession where
  "sampleSession =
     \<lparr> phoneNumber = ''2547000000'', currentQuestionIndex = 0,
       questions = [toQuestion (sampleRow ''1'' ''A''), toQuestion (sampleRow ''2'' ''B'')],
       currentScore = 0, isCompleted = False, aggregateScore = 0 \<rparr>"

text \<open>Ten messages that answer the first ten rows of the sample table correctly.\<close>

definition sampleAnswers :: "string list" where
  "sampleAnswers = [''A'', ''b'', '' c '', ''D'', ''a'', ''B'', ''C'', ''d'', '' A'', ''b '']"

definition sampleEnv :: "int option \<Rightarrow> reply \<Rightarrow> env" where
  "sampleEnv attempts r =
     \<lparr> PISI_RETRY_MAX_ATTEMPTS = attempts, PISI_RETRY_BASE_DELAY_MS = None,
       PISI_RETRY_MAX_DELAY_MS = None, gateway = (\<lambda>req n. r), random = (\<lambda>req n. 1 / 2) \<rparr>"

text \<open>An environment that sets the three variables, with a gateway that is unavailable and
  a draw whose product with 100 is rounded upwards across a whole number.\<close>

definition configuredEnv :: env where
  "configuredEnv =
     \<lparr> PISI_RETRY_MAX_ATTEMPTS = Some 3, PISI_RETRY_BASE_DELAY_MS = Some 200,
       PISI_RETRY_MAX_DELAY_MS = Some 1000,
       gateway = (\<lambda>req n. Rejected (Some 503) None ''Request failed with status code 503''),
       random = (\<lambda>req n. 2206763817411543 / 2 ^ 52) \<rparr>"

definition sampleUser :: UserDetails where
  "sampleUser = \<lparr> msisdn = ''2547000000'', subscriptionPlan = DAILY \<rparr>"

definition silentBody :: ResponseData where
  "silentBody = \<lparr> data_success = False, data_message = None, data_error = None \<rparr>"

definition acceptedBody :: ResponseData where
  "acceptedBody = \<lparr> data_success = True, data_message = None, data_error = None \<rparr>"

section \<open>Properties of the session engine\<close>

subsection \<open>Facts about the store\<close>

lemma sessionField_not_session: "sessionField x name = Some v \<Longrightarrow> v \<noteq> JsSession s"
  by (auto simp add: sessionField_def split: if_splits)

lemma getSession_session: "getSession store phone = JsSession s \<longleftrightarrow> store phone = Some s"
  by (auto simp add: getSession_def inherited_def sessionField_not_session split: option.splits)

lemma getSession_other_key:
  assumes "p \<noteq> ''__proto__''" and "p \<noteq> q" and "store' = store(p := v)"
  shows "getSession store' q = getSession store q"
  using assms by (simp add: getSession_def inherited_def split: option.splits)

subsection \<open>Facts about \<^verbatim>\<open>startQuiz\<close> and \<^verbatim>\<open>processAnswer\<close>\<close>

lemma startQuiz_store:
  "snd (startQuiz table phone store) =
     store(phone \<mapsto> \<lparr> phoneNumber = phone, currentQuestionIndex = 0,
       questions = getRandomQuestions table, currentScore = 0, isCompleted = False,
       aggregateScore = 0 \<rparr>)"
  by (simp add: startQuiz_def setSession_def Let_def)

lemma startQuiz_first:
  "fst (startQuiz table phone store) = itemAt (getRandomQuestions table) 0"
  by (simp add: startQuiz_def Let_def)

lemma length_getRandomQuestions: "length (getRandomQuestions table) = min 10 (length table)"
  by (simp add: getRandomQuestions_def min_def)

lemma processAnswer_active:
  assumes "store phone = Some session" "\<not> isCompleted session"
    "itemAt (questions session) (currentQuestionIndex session) = Some q"
    "correctAnswer q = Some expected"
  shows "processAnswer phone answer store =
    (let session' = applyAnswer session expected answer;
         finished = (currentQuestionIndex session' \<ge> length (questions session'))
     in (Inr (Answered \<lparr> correct = answersMatch expected answer,
                nextQuestion = (if finished then None
                                else itemAt (questions session') (currentQuestionIndex session')),
                isDone = finished, score = currentScore session',
                resultAggregate = aggregateScore session' \<rparr>),
         if finished \<and> phone \<noteq> ''__proto__'' then store(phone := None)
         else store(phone \<mapsto> session')))"
proof -
  from assms(1) have g: "getSession store phone = JsSession session"
    by (simp add: getSession_session)
  show ?thesis
    using assms(2,3,4)
    by (simp add: processAnswer_def g Let_def clearSession_def setSession_def)
qed

lemma applyAnswer_index: "currentQuestionIndex (applyAnswer s x a) = currentQuestionIndex s + 1"
  by (simp add: applyAnswer_def Let_def)

lemma applyAnswer_questions: "questions (applyAnswer s x a) = questions s"
  by (simp add: applyAnswer_def Let_def)

lemma applyAnswer_score:
  "currentScore (applyAnswer s x a) =
     (if answersMatch x a then currentScore s + 1 else currentScore s)"
  by (simp add: applyAnswer_def Let_def)

lemma applyAnswer_completed:
  "isCompleted (applyAnswer s x a) =
     (isCompleted s \<or> currentQuestionIndex s + 1 \<ge> length (questions s))"
  by (simp add: applyAnswer_def Let_def)

lemma applyAnswer_aggregate:
  "aggregateScore (applyAnswer s x a) =
     (if currentQuestionIndex s + 1 \<ge> length (questions s)
      then aggregateScore s + currentScore (applyAnswer s x a) else aggregateScore s)"
  by (simp add: applyAnswer_def Let_def)

lemma processAnswer_falsy:
  "\<not> truthy (getSession store phone) \<Longrightarrow> processAnswer phone answer store =
     (Inr (NoActiveSession ''No active quiz session. Send START to begin.''), store)"
  by (cases "getSession store phone") (simp_all add: processAnswer_def truthy_def)

lemma processAnswer_not_a_session:
  assumes "truthy (getSession store phone)" and "\<And>s. getSession store phone \<noteq> JsSession s"
  shows "processAnswer phone answer store = (Inl TypeError, store)"
  using assms by (cases "getSession store phone") (auto simp add: processAnswer_def)

lemma processAnswer_null_answer:
  assumes "getSession store phone = JsSession session" and "\<not> isCompleted session"
    and "itemAt (questions session) (currentQuestionIndex session) = Some q"
    and "correctAnswer q = None"
  shows "processAnswer phone answer store = (Inl TypeError, store)"
  using assms by (simp add: processAnswer_def)

lemma processAnswer_steps:
  "snd (processAnswer phone answer store) = store
   \<or> (\<exists>session expected. store phone = Some session \<and> \<not> isCompleted session
         \<and> currentQuestionIndex session < length (questions session)
         \<and> snd (processAnswer phone answer store) =
             (if currentQuestionIndex session + 1 \<ge> length (questions session)
                 \<and> phone \<noteq> ''__proto__''
              then store(phone := None)
              else store(phone \<mapsto> applyAnswer session expected answer)))"
proof (cases "getSession store phone")
  case (JsSession session)
  then have own: "store phone = Some session" by (simp add: getSession_session)
  show ?thesis
  proof (cases "isCompleted session")
    case True
    then show ?thesis using JsSession by (simp add: processAnswer_def)
  next
    case False
    show ?thesis
    proof (cases "itemAt (questions session) (currentQuestionIndex session)")
      case None
      then show ?thesis using JsSession False by (simp add: processAnswer_def)
    next
      case (Some q)
      then have lt: "currentQuestionIndex session < length (questions session)"
        by (simp add: itemAt_def split: if_splits)
      show ?thesis
      proof (cases "correctAnswer q")
        case None
        then show ?thesis using JsSession False Some by (simp add: processAnswer_def)
      next
        case (Some expected)
        from processAnswer_active[of store phone session q expected answer, OF own False
            \<open>itemAt (questions session) (currentQuestionIndex session) = Some q\<close> Some]
        have "snd (processAnswer phone answer store) =
             (if currentQuestionIndex session + 1 \<ge> length (questions session)
                 \<and> phone \<noteq> ''__proto__''
              then store(phone := None)
              else store(phone \<mapsto> applyAnswer session expected answer))"
          by (simp add: Let_def applyAnswer_index applyAnswer_questions del: fun_upd_apply)
        with own False lt show ?thesis by blast
      qed
    qed
  qed
qed (simp_all add: processAnswer_def)

lemma processAnswer_other:
  "p \<noteq> q \<Longrightarrow> snd (processAnswer p a store) q = store q"
  using processAnswer_steps[of p a store] by auto

lemma processAnswer_noactive_unchanged:
  "fst (processAnswer p a store) = Inr (NoActiveSession m) \<Longrightarrow>
     snd (processAnswer p a store) = store"
  by (cases "getSession store p")
    (auto simp add: processAnswer_def Let_def split: option.splits if_splits)

subsection \<open>Starting a quiz\<close>

text \<open>
  Claim C5, as stated, asks for exactly ten questions after every start. A table of three
  rows gives a session of three questions.
\<close>

theorem startQuiz_three_rows_counterexample:
  "map_option (\<lambda>s. length (questions s))
     (snd (startQuiz (take 3 sampleTable) ''2547000000'' Map.empty) ''2547000000'') = Some 3"
  by (simp add: startQuiz_store length_getRandomQuestions sampleTable_def)

text \<open>
  Claim C5, amended: when the table yields at least one row, \<^verbatim>\<open>startQuiz\<close> stores under
  the subscriber a session with index 0, score 0, not completed, holding exactly
  \<open>min 10 rows\<close> questions, which is exactly ten when the table yields at least ten rows;
  the session stored does not depend on a session stored before (no merge, no resume); the
  first question is returned; and \<^verbatim>\<open>getSession\<close> then returns this session.
\<close>

theorem startQuiz_fresh_session:
  assumes "table \<noteq> []"
  shows "snd (startQuiz table phone store) phone =
           Some \<lparr> phoneNumber = phone, currentQuestionIndex = 0,
                  questions = getRandomQuestions table, currentScore = 0,
                  isCompleted = False, aggregateScore = 0 \<rparr>
         \<and> length (getRandomQuestions table) = min 10 (length table)
         \<and> (10 \<le> length table \<longrightarrow> length (getRandomQuestions table) = 10)
         \<and> snd (startQuiz table phone (store(phone \<mapsto> previous))) =
             snd (startQuiz table phone store)
         \<and> fst (startQuiz table phone store) = Some (toQuestion (hd table))
         \<and> getSession (snd (startQuiz table phone store)) phone =
             JsSession \<lparr> phoneNumber = phone, currentQuestionIndex = 0,
                  questions = getRandomQuestions table, currentScore = 0,
                  isCompleted = False, aggregateScore = 0 \<rparr>"
proof -
  from assms have "itemAt (getRandomQuestions table) 0 = Some (toQuestion (hd table))"
    by (cases table) (simp_all add: getRandomQuestions_def itemAt_def)
  then show ?thesis
    by (simp add: startQuiz_store startQuiz_first length_getRandomQuestions getSession_session)
qed

theorem startQuiz_fresh_session_witness:
  "sampleTable \<noteq> [] \<and> 10 \<le> length sampleTable
   \<and> snd (startQuiz sampleTable ''2547000000'' (Map.empty(''2547000000'' \<mapsto> sampleSession)))
        ''2547000000'' =
       Some \<lparr> phoneNumber = ''2547000000'', currentQuestionIndex = 0,
              questions = getRandomQuestions sampleTable, currentScore = 0,
              isCompleted = False, aggregateScore = 0 \<rparr>
   \<and> length (getRandomQuestions sampleTable) = 10
   \<and> fst (startQuiz sampleTable ''2547000000'' (Map.empty(''2547000000'' \<mapsto> sampleSession))) =
       Some (toQuestion (sampleRow ''1'' ''A''))"
proof -
  have h: "sampleTable \<noteq> []" by (simp add: sampleTable_def)
  have ten: "10 \<le> length sampleTable" by (simp add: sampleTable_def)
  have first: "hd sampleTable = sampleRow ''1'' ''A''" by (simp add: sampleTable_def)
  from startQuiz_fresh_session[OF h, of "''2547000000''"
      "Map.empty(''2547000000'' \<mapsto> sampleSession)"]
  show ?thesis using h ten unfolding first by blast
qed

text \<open>
  Claim C1, as stated, asks that a start which finds fewer than ten questions creates no
  session. With three rows a session is created and the first question is returned.
\<close>

theorem startQuiz_short_table_counterexample:
  "length (getRandomQuestions (take 3 sampleTable)) < 10
   \<and> snd (startQuiz (take 3 sampleTable) ''2547000000'' Map.empty) ''2547000000'' \<noteq> None
   \<and> fst (startQuiz (take 3 sampleTable) ''2547000000'' Map.empty) =
       Some (toQuestion (sampleRow ''1'' ''A''))"
  by (simp add: startQuiz_store startQuiz_first length_getRandomQuestions itemAt_def
      getRandomQuestions_def sampleTable_def)

text \<open>
  Claim C1, amended: when the provider returns \<open>k\<close> questions with \<open>1 \<le> k < 10\<close>, nothing is
  raised: \<^verbatim>\<open>startQuiz\<close> returns the first of them and stores a session that holds exactly
  these \<open>k\<close> questions, which \<^verbatim>\<open>getSession\<close> then returns, and the start branch of the
  handler composes the reply of a started quiz from it.
\<close>

theorem startQuiz_short_table:
  assumes "table \<noteq> []" and "length table < 10"
  shows "fst (startQuiz table phone store) = Some (toQuestion (hd table))
         \<and> snd (startQuiz table phone store) phone =
             Some \<lparr> phoneNumber = phone, currentQuestionIndex = 0,
                    questions = map toQuestion table, currentScore = 0,
                    isCompleted = False, aggregateScore = 0 \<rparr>
         \<and> getSession (snd (startQuiz table phone store)) phone =
             JsSession \<lparr> phoneNumber = phone, currentQuestionIndex = 0,
                    questions = map toQuestion table, currentScore = 0,
                    isCompleted = False, aggregateScore = 0 \<rparr>
         \<and> startBranch table store phone (Inr d, evs) =
             (Inr (''Quiz started!'' @ nl @ ''Q1: '' @ templateText (qtext (toQuestion (hd table)))
                   @ optionLines (toQuestion (hd table))),
              snd (startQuiz table phone store), evs @ [SelectQuestions])"
proof -
  from assms have qs: "getRandomQuestions table = map toQuestion table"
    by (simp add: getRandomQuestions_def)
  from assms(1) have first: "itemAt (map toQuestion table) 0 = Some (toQuestion (hd table))"
    by (cases table) (simp_all add: itemAt_def)
  have a: "fst (startQuiz table phone store) = Some (toQuestion (hd table))"
    by (simp add: startQuiz_first qs first)
  have b: "snd (startQuiz table phone store) phone =
             Some \<lparr> phoneNumber = phone, currentQuestionIndex = 0,
                    questions = map toQuestion table, currentScore = 0,
                    isCompleted = False, aggregateScore = 0 \<rparr>"
    by (simp add: startQuiz_store qs)
  from b have b': "getSession (snd (startQuiz table phone store)) phone =
             JsSession \<lparr> phoneNumber = phone, currentQuestionIndex = 0,
                    questions = map toQuestion table, currentScore = 0,
                    isCompleted = False, aggregateScore = 0 \<rparr>"
    by (simp only: getSession_session)
  have c: "startBranch table store phone (Inr d, evs) =
             (Inr (''Quiz started!'' @ nl @ ''Q1: '' @ templateText (qtext (toQuestion (hd table)))
                   @ optionLines (toQuestion (hd table))),
              snd (startQuiz table phone store), evs @ [SelectQuestions])"
    using a by (cases "startQuiz table phone store") (simp add: startBranch_def quizStartedMessage_def)
  from a b b' c show ?thesis by blast
qed

theorem startQuiz_short_table_witness:
  "take 3 sampleTable \<noteq> [] \<and> length (take 3 sampleTable) < 10
   \<and> fst (startQuiz (take 3 sampleTable) ''2547000000'' Map.empty) =
       Some (toQuestion (sampleRow ''1'' ''A''))
   \<and> map_option (\<lambda>s. length (questions s))
        (snd (startQuiz (take 3 sampleTable) ''2547000000'' Map.empty) ''2547000000'') = Some 3"
proof -
  have h1: "take 3 sampleTable \<noteq> []" and h2: "length (take 3 sampleTable) < 10"
    by (simp_all add: sampleTable_def)
  have h3: "hd (take 3 sampleTable) = sampleRow ''1'' ''A''" by (simp add: sampleTable_def)
  have h4: "length (take 3 sampleTable) = 3" by (simp add: sampleTable_def)
  from startQuiz_short_table[OF h1 h2, of "''2547000000''" Map.empty None "[]"]
  show ?thesis using h1 h2 by (simp add: h3 h4 del: take_eq_Nil length_take)
qed

subsection \<open>Answering a question\<close>

text \<open>
  Claim C6: when \<^verbatim>\<open>getSession\<close> returns a session that is not completed and whose current
  question has a correct answer (the column is not \<^verbatim>\<open>NULL\<close>), for ASCII texts,
  \<^verbatim>\<open>processAnswer\<close> compares the answer and the correct answer of the current question
  after trimming and upper-casing both; the score grows by one exactly when they match;
  whatever the answer, the index advances by one: either the session is stored again with
  the next index and the next question is returned, or, on the last question, no question is
  returned and the session is completed and removed (under the key \<^verbatim>\<open>__proto__\<close> it stays,
  completed).
\<close>

theorem processAnswer_scores_and_advances:
  assumes "getSession store phone = JsSession session"
    and "\<not> isCompleted session"
    and "itemAt (questions session) (currentQuestionIndex session) = Some currentQ"
    and "correctAnswer currentQ = Some expected"
    and "asciiText expected" and "asciiText answer"
  shows "\<exists>result.
           fst (processAnswer phone answer store) = Inr (Answered result)
           \<and> correct result = (toUpperCase (trim expected) = toUpperCase (trim answer))
           \<and> score result = (if correct result then currentScore session + 1 else currentScore session)
           \<and> isDone result = (currentQuestionIndex session + 1 \<ge> length (questions session))
           \<and> (if isDone result
               then nextQuestion result = None
                    \<and> (if phone = ''__proto__''
                        then getSession (snd (processAnswer phone answer store)) phone =
                               JsSession (session\<lparr>currentQuestionIndex := currentQuestionIndex session + 1,
                                     currentScore := score result, isCompleted := True,
                                     aggregateScore := aggregateScore session + score result\<rparr>)
                        else snd (processAnswer phone answer store) phone = None)
               else getSession (snd (processAnswer phone answer store)) phone =
                      JsSession (session\<lparr>currentQuestionIndex := currentQuestionIndex session + 1,
                                     currentScore := score result\<rparr>)
                    \<and> nextQuestion result =
                        Some (questions session ! (currentQuestionIndex session + 1)))"
proof -
  let ?s' = "applyAnswer session expected answer"
  from assms(1) have own: "store phone = Some session" by (simp add: getSession_session)
  have eq: "\<not> currentQuestionIndex session + 1 \<ge> length (questions session) \<Longrightarrow>
      ?s' = session\<lparr>currentQuestionIndex := currentQuestionIndex session + 1,
                     currentScore := currentScore ?s'\<rparr>"
    by (simp add: applyAnswer_def Let_def)
  have eq': "currentQuestionIndex session + 1 \<ge> length (questions session) \<Longrightarrow>
      ?s' = session\<lparr>currentQuestionIndex := currentQuestionIndex session + 1,
                     currentScore := currentScore ?s', isCompleted := True,
                     aggregateScore := aggregateScore session + currentScore ?s'\<rparr>"
    by (simp add: applyAnswer_def Let_def)
  show ?thesis
  proof (cases "currentQuestionIndex session + 1 \<ge> length (questions session)")
    case True
    from eq'[OF True] have e: "JsSession ?s' =
        JsSession (session\<lparr>currentQuestionIndex := currentQuestionIndex session + 1,
                     currentScore := currentScore ?s', isCompleted := True,
                     aggregateScore := aggregateScore session + currentScore ?s'\<rparr>)"
      by simp
    show ?thesis
      using processAnswer_active[of store phone session currentQ expected answer, OF own assms(2,3,4)] True e
      by (auto simp add: Let_def applyAnswer_index applyAnswer_questions applyAnswer_score
          answersMatch_def getSession_session)
  next
    case False
    from eq[OF False] have e: "JsSession ?s' =
        JsSession (session\<lparr>currentQuestionIndex := currentQuestionIndex session + 1,
                     currentScore := currentScore ?s'\<rparr>)"
      by simp
    show ?thesis
      using processAnswer_active[of store phone session currentQ expected answer, OF own assms(2,3,4)] False e
      by (auto simp add: Let_def applyAnswer_index applyAnswer_questions applyAnswer_score
          answersMatch_def itemAt_def getSession_session)
  qed
qed

theorem processAnswer_scores_and_advances_witness:
  "getSession [''2547000000'' \<mapsto> sampleSession] ''2547000000'' = JsSession sampleSession
   \<and> \<not> isCompleted sampleSession
   \<and> itemAt (questions sampleSession) (currentQuestionIndex sampleSession) =
       Some (toQuestion (sampleRow ''1'' ''A''))
   \<and> correctAnswer (toQuestion (sampleRow ''1'' ''A'')) = Some ''A''
   \<and> asciiText ''A'' \<and> asciiText '' a ''
   \<and> (\<exists>result.
         fst (processAnswer ''2547000000'' '' a '' [''2547000000'' \<mapsto> sampleSession]) =
           Inr (Answered result)
         \<and> correct result \<and> score result = 1 \<and> \<not> isDone result
         \<and> nextQuestion result = Some (toQuestion (sampleRow ''2'' ''B''))
         \<and> getSession
              (snd (processAnswer ''2547000000'' '' a '' [''2547000000'' \<mapsto> sampleSession]))
              ''2547000000'' =
             JsSession (sampleSession\<lparr>currentQuestionIndex := 1, currentScore := 1\<rparr>))"
proof -
  have h1: "getSession [''2547000000'' \<mapsto> sampleSession] ''2547000000'' = JsSession sampleSession"
    by (simp add: getSession_session)
  have h2: "\<not> isCompleted sampleSession" by (simp add: sampleSession_def)
  have h3: "itemAt (questions sampleSession) (currentQuestionIndex sampleSession) =
       Some (toQuestion (sampleRow ''1'' ''A''))"
    by (simp add: sampleSession_def itemAt_def)
  have h4: "correctAnswer (toQuestion (sampleRow ''1'' ''A'')) = Some ''A''"
    by (simp add: toQuestion_def sampleRow_def)
  have h5: "asciiText ''A''" and h6: "asciiText '' a ''"
    by (simp_all add: asciiText_def)
  have m: "toUpperCase (trim ''A'') = toUpperCase (trim '' a '')"
    by (simp add: toUpperCase_def trim_def isWhiteSpace_def upperChar_def)
  have v: "currentQuestionIndex sampleSession = 0" "currentScore sampleSession = 0"
    "questions sampleSession ! 1 = toQuestion (sampleRow ''2'' ''B'')"
    "length (questions sampleSession) = 2"
    by (simp_all add: sampleSession_def)
  from processAnswer_scores_and_advances[of "[''2547000000'' \<mapsto> sampleSession]"
      "''2547000000''" sampleSession "toQuestion (sampleRow ''1'' ''A'')" "''A''" "'' a ''",
      OF h1 h2 h3 h4 h5 h6]
  obtain result where
    r1: "fst (processAnswer ''2547000000'' '' a '' [''2547000000'' \<mapsto> sampleSession]) =
       Inr (Answered result)"
    and r2: "correct result = (toUpperCase (trim ''A'') = toUpperCase (trim '' a ''))"
    and r3: "score result = (if correct result then currentScore sampleSession + 1
       else currentScore sampleSession)"
    and r4: "isDone result = (currentQuestionIndex sampleSession + 1 \<ge> length (questions sampleSession))"
    and r5: "if isDone result
       then nextQuestion result = None
            \<and> (if ''2547000000'' = ''__proto__''
                then getSession (snd (processAnswer ''2547000000'' '' a '' [''2547000000'' \<mapsto> sampleSession]))
                       ''2547000000'' =
                     JsSession (sampleSession\<lparr>currentQuestionIndex := currentQuestionIndex sampleSession + 1,
                                     currentScore := score result, isCompleted := True,
                                     aggregateScore := aggregateScore sampleSession + score result\<rparr>)
                else snd (processAnswer ''2547000000'' '' a '' [''2547000000'' \<mapsto> sampleSession])
                       ''2547000000'' = None)
       else getSession (snd (processAnswer ''2547000000'' '' a '' [''2547000000'' \<mapsto> sampleSession]))
              ''2547000000'' =
              JsSession (sampleSession\<lparr>currentQuestionIndex := currentQuestionIndex sampleSession + 1,
                                    currentScore := score result\<rparr>)
            \<and> nextQuestion result =
                Some (questions sampleSession ! (currentQuestionIndex sampleSession + 1))"
    by blast
  from r2 m have c: "correct result" by simp
  from r3 c v have sc: "score result = 1" by simp
  from r4 v have d: "\<not> isDone result" by simp
  from r5 d v have nq: "nextQuestion result = Some (toQuestion (sampleRow ''2'' ''B''))" by simp
  from r5 d v sc have "getSession
              (snd (processAnswer ''2547000000'' '' a '' [''2547000000'' \<mapsto> sampleSession]))
              ''2547000000'' =
             JsSession (sampleSession\<lparr>currentQuestionIndex := 1, currentScore := 1\<rparr>)"
    by simp
  with r1 c sc d nq h1 h2 h3 h4 h5 h6 show ?thesis by blast
qed

subsection \<open>The other subscribers\<close>

text \<open>
  Claim C10 asks that a call for the key \<open>p\<close> leaves what is stored under every other key
  \<open>q\<close> as it was. Evaluated at \<open>p\<close> = \<^verbatim>\<open>__proto__\<close> and \<open>q\<close> = \<^verbatim>\<open>questions\<close>, on the empty
  store: before the call \<^verbatim>\<open>getSession\<close> returns \<^verbatim>\<open>undefined\<close> for \<open>q\<close> and an answer for
  \<open>q\<close> gets the error of no active session; \<^verbatim>\<open>startQuiz\<close> for \<open>p\<close> makes the new session
  the prototype of the store, and after it \<^verbatim>\<open>getSession\<close> returns for \<open>q\<close> the questions
  of that session, and an answer for \<open>q\<close> throws a \<^verbatim>\<open>TypeError\<close>. An answer for \<open>p\<close> then
  changes what \<^verbatim>\<open>getSession\<close> returns for the key \<^verbatim>\<open>currentQuestionIndex\<close>.
\<close>

theorem proto_key_changes_other_keys:
  "getSession Map.empty ''questions'' = JsUndefined
   \<and> processAnswer ''questions'' ''A'' Map.empty =
       (Inr (NoActiveSession ''No active quiz session. Send START to begin.''), Map.empty)
   \<and> getSession (snd (startQuiz sampleTable ''__proto__'' Map.empty)) ''questions'' =
       JsQuestions (getRandomQuestions sampleTable)
   \<and> fst (processAnswer ''questions'' ''A'' (snd (startQuiz sampleTable ''__proto__'' Map.empty))) =
       Inl TypeError
   \<and> getSession (snd (startQuiz sampleTable ''__proto__'' Map.empty)) ''currentQuestionIndex'' =
       JsNumber 0
   \<and> getSession (snd (processAnswer ''__proto__'' ''A''
          (snd (startQuiz sampleTable ''__proto__'' Map.empty)))) ''currentQuestionIndex'' =
       JsNumber 1"
proof -
  let ?s = "\<lparr> phoneNumber = ''__proto__'', currentQuestionIndex = 0,
       questions = getRandomQuestions sampleTable, currentScore = 0, isCompleted = False,
       aggregateScore = 0 \<rparr>"
  let ?store = "[''__proto__'' \<mapsto> ?s]"
  have st: "snd (startQuiz sampleTable ''__proto__'' Map.empty) = ?store"
    by (rule startQuiz_store)
  have a: "getSession Map.empty ''questions'' = JsUndefined"
    by (simp add: getSession_def inherited_def objectPrototypeMembers_def)
  have b: "processAnswer ''questions'' ''A'' Map.empty =
       (Inr (NoActiveSession ''No active quiz session. Send START to begin.''), Map.empty)"
    by (rule processAnswer_falsy) (simp add: a truthy_def)
  have c: "getSession ?store ''questions'' = JsQuestions (getRandomQuestions sampleTable)"
    by (simp add: getSession_def inherited_def sessionField_def)
  have d: "fst (processAnswer ''questions'' ''A'' ?store) = Inl TypeError"
    by (simp add: processAnswer_def c truthy_def)
  have e: "getSession ?store ''currentQuestionIndex'' = JsNumber 0"
    by (simp add: getSession_def inherited_def sessionField_def)
  have own: "?store ''__proto__'' = Some ?s" by simp
  have nc: "\<not> isCompleted ?s" by simp
  have q: "itemAt (questions ?s) (currentQuestionIndex ?s) = Some (toQuestion (sampleRow ''1'' ''A''))"
    by (simp add: itemAt_def getRandomQuestions_def sampleTable_def)
  have ca: "correctAnswer (toQuestion (sampleRow ''1'' ''A'')) = Some ''A''"
    by (simp add: toQuestion_def sampleRow_def)
  have len: "length (getRandomQuestions sampleTable) = 10"
    by (simp add: length_getRandomQuestions sampleTable_def)
  have f: "snd (processAnswer ''__proto__'' ''A'' ?store) =
      ?store(''__proto__'' \<mapsto> applyAnswer ?s ''A'' ''A'')"
    using processAnswer_active[of ?store "''__proto__''" ?s "toQuestion (sampleRow ''1'' ''A'')"
        "''A''" "''A''", OF own nc q ca] len
    by (simp add: Let_def applyAnswer_index applyAnswer_questions del: fun_upd_apply)
  have g: "getSession (snd (processAnswer ''__proto__'' ''A'' ?store)) ''currentQuestionIndex'' =
       JsNumber 1"
    unfolding f by (simp add: getSession_def inherited_def sessionField_def applyAnswer_index)
  from a b c d e g show ?thesis unfolding st by blast
qed

text \<open>
  For every key \<open>p\<close> other than \<^verbatim>\<open>__proto__\<close> the property holds: \<^verbatim>\<open>startQuiz\<close> and
  \<^verbatim>\<open>processAnswer\<close> for \<open>p\<close> leave what \<^verbatim>\<open>getSession\<close> returns for every other key \<open>q\<close> as
  it was; and for every key, a call of \<^verbatim>\<open>processAnswer\<close> that returns the error of no
  active session, or that throws, leaves the whole store as it was.
\<close>

theorem other_sessions_unchanged:
  assumes "p \<noteq> ''__proto__''"
  shows "(p \<noteq> q \<longrightarrow> getSession (snd (startQuiz table p store)) q = getSession store q
              \<and> getSession (snd (processAnswer p answer store)) q = getSession store q)
   \<and> (fst (processAnswer p' answer store) = Inr (NoActiveSession m) \<longrightarrow>
        snd (processAnswer p' answer store) = store)
   \<and> (fst (processAnswer p' answer store) = Inl x \<longrightarrow>
        snd (processAnswer p' answer store) = store)"
proof -
  have a: "getSession (snd (startQuiz table p store)) q = getSession store q" if "p \<noteq> q"
    using assms that by (intro getSession_other_key[of p q]) (simp_all add: startQuiz_store)
  have b: "getSession (snd (processAnswer p answer store)) q = getSession store q" if "p \<noteq> q"
  proof -
    from processAnswer_steps[of p answer store]
    consider "snd (processAnswer p answer store) = store"
      | v where "snd (processAnswer p answer store) = store(p := v)"
      by (auto split: if_splits)
    then show ?thesis
    proof cases
      case 1
      then show ?thesis by simp
    next
      case 2
      then show ?thesis using assms that by (intro getSession_other_key[of p q]) simp_all
    qed
  qed
  have c: "snd (processAnswer p' answer store) = store"
    if "fst (processAnswer p' answer store) = Inr (NoActiveSession m)"
    using that by (rule processAnswer_noactive_unchanged)
  have d: "snd (processAnswer p' answer store) = store"
    if "fst (processAnswer p' answer store) = Inl x"
    using that
    by (cases "getSession store p'")
      (auto simp add: processAnswer_def Let_def split: option.splits if_splits)
  from a b c d show ?thesis by blast
qed

theorem other_sessions_unchanged_witness:
  "''2547000000'' \<noteq> ''__proto__'' \<and> ''2547000000'' \<noteq> ''2547000001''
   \<and> getSession (snd (startQuiz sampleTable ''2547000000'' [''2547000001'' \<mapsto> sampleSession]))
        ''2547000001'' = JsSession sampleSession
   \<and> getSession (snd (processAnswer ''2547000000'' ''A'' [''2547000001'' \<mapsto> sampleSession]))
        ''2547000001'' = JsSession sampleSession
   \<and> fst (processAnswer ''2547000000'' ''A'' [''2547000001'' \<mapsto> sampleSession]) =
       Inr (NoActiveSession ''No active quiz session. Send START to begin.'')
   \<and> snd (processAnswer ''2547000000'' ''A'' [''2547000001'' \<mapsto> sampleSession]) =
       [''2547000001'' \<mapsto> sampleSession]"
proof -
  have h: "''2547000000'' \<noteq> ''__proto__''" by simp
  have g: "getSession [''2547000001'' \<mapsto> sampleSession] ''2547000000'' = JsUndefined"
    by (simp add: getSession_def inherited_def objectPrototypeMembers_def)
  have n: "fst (processAnswer ''2547000000'' ''A'' [''2547000001'' \<mapsto> sampleSession]) =
       Inr (NoActiveSession ''No active quiz session. Send START to begin.'')"
    by (simp add: processAnswer_def g truthy_def)
  have k: "getSession [''2547000001'' \<mapsto> sampleSession] ''2547000001'' = JsSession sampleSession"
    by (simp add: getSession_session)
  from other_sessions_unchanged[OF h, of "''2547000001''" sampleTable
      "[''2547000001'' \<mapsto> sampleSession]" "''A''" "''2547000000''"
      "''No active quiz session. Send START to begin.''"] n
  show ?thesis by (simp add: k)
qed

subsection \<open>A whole quiz\<close>

lemma processAnswer_last:
  assumes "store phone = Some session" "\<not> isCompleted session"
    "currentQuestionIndex session + 1 = length (questions session)"
    "list_all (\<lambda>q. correctAnswer q \<noteq> None) (questions session)"
    "phone \<noteq> ''__proto__''"
  shows "\<exists>r. processAnswer phone answer store = (Inr (Answered r), store(phone := None)) \<and> isDone r"
proof -
  from assms(3) obtain q where q: "itemAt (questions session) (currentQuestionIndex session) = Some q"
    and "q \<in> set (questions session)"
    by (auto simp: itemAt_def)
  with assms(4) obtain expected where e: "correctAnswer q = Some expected"
    by (auto simp: list_all_iff)
  show ?thesis
    using processAnswer_active[of store phone session q expected answer, OF assms(1,2) q e] assms(3,5)
    by (simp add: Let_def applyAnswer_index applyAnswer_questions)
qed

lemma processAnswer_middle:
  assumes "store phone = Some session" "\<not> isCompleted session"
    "currentQuestionIndex session + 1 < length (questions session)"
    "list_all (\<lambda>q. correctAnswer q \<noteq> None) (questions session)"
  shows "\<exists>r s'. processAnswer phone answer store = (Inr (Answered r), store(phone \<mapsto> s'))
     \<and> \<not> isDone r \<and> \<not> isCompleted s'
     \<and> currentQuestionIndex s' = currentQuestionIndex session + 1
     \<and> questions s' = questions session"
proof -
  from assms(3) obtain q where q: "itemAt (questions session) (currentQuestionIndex session) = Some q"
    and "q \<in> set (questions session)"
    by (auto simp: itemAt_def)
  with assms(4) obtain expected where e: "correctAnswer q = Some expected"
    by (auto simp: list_all_iff)
  show ?thesis
    using processAnswer_active[of store phone session q expected answer, OF assms(1,2) q e] assms(2,3)
    by (auto intro!: exI[of _ "applyAnswer session expected answer"]
        simp add: Let_def applyAnswer_index applyAnswer_questions applyAnswer_completed)
qed

lemma processAnswers_to_the_end:
  assumes "store phone = Some session" "\<not> isCompleted session"
    "currentQuestionIndex session + length answers = length (questions session)"
    "answers \<noteq> []"
    "list_all (\<lambda>q. correctAnswer q \<noteq> None) (questions session)"
    "phone \<noteq> ''__proto__''"
  shows "\<exists>rs. processAnswers phone answers store = (Inr rs, store(phone := None))
           \<and> length rs = length answers
           \<and> (\<forall>j<length answers. \<exists>r. rs ! j = Answered r \<and> (isDone r \<longleftrightarrow> j = length answers - 1))"
  using assms
proof (induction answers arbitrary: store session)
  case Nil
  then show ?case by simp
next
  case (Cons a as)
  show ?case
  proof (cases "as = []")
    case True
    with Cons.prems have "currentQuestionIndex session + 1 = length (questions session)" by simp
    with processAnswer_last[of store phone session a] Cons.prems(1,2,5,6)
    obtain r where r: "processAnswer phone a store = (Inr (Answered r), store(phone := None))" "isDone r"
      by blast
    then have "processAnswers phone (a # as) store = (Inr [Answered r], store(phone := None))"
      using True by (simp del: fun_upd_apply)
    moreover have "\<forall>j<length (a # as). \<exists>r'. [Answered r] ! j = Answered r'
        \<and> (isDone r' \<longleftrightarrow> j = length (a # as) - 1)"
      using r(2) True by simp
    moreover have "length [Answered r] = length (a # as)" using True by simp
    ultimately show ?thesis by blast
  next
    case False
    with Cons.prems have lt: "currentQuestionIndex session + 1 < length (questions session)"
      by (cases as) auto
    from processAnswer_middle[of store phone session a] Cons.prems(1,2,5) lt
    obtain r s' where r: "processAnswer phone a store = (Inr (Answered r), store(phone \<mapsto> s'))"
      "\<not> isDone r" "\<not> isCompleted s'" "currentQuestionIndex s' = currentQuestionIndex session + 1"
      "questions s' = questions session" by blast
    have h1: "(store(phone \<mapsto> s')) phone = Some s'" by simp
    have h2: "currentQuestionIndex s' + length as = length (questions s')"
      using r(4,5) Cons.prems(3) by simp
    have h3: "list_all (\<lambda>q. correctAnswer q \<noteq> None) (questions s')"
      using r(5) Cons.prems(5) by simp
    from Cons.IH[of "store(phone \<mapsto> s')" s', OF h1 r(3) h2 False h3 Cons.prems(6)]
    obtain rs where rs0: "processAnswers phone as (store(phone \<mapsto> s')) =
          (Inr rs, (store(phone \<mapsto> s'))(phone := None))"
      and rs2: "length rs = length as"
      and rs3: "\<forall>j<length as. \<exists>r. rs ! j = Answered r \<and> (isDone r \<longleftrightarrow> j = length as - 1)"
      by blast
    have "(store(phone \<mapsto> s'))(phone := None) = store(phone := None)" by simp
    with rs0 have rs1: "processAnswers phone as (store(phone \<mapsto> s')) = (Inr rs, store(phone := None))"
      by simp
    have run: "processAnswers phone (a # as) store = (Inr (Answered r # rs), store(phone := None))"
      using r(1) rs1 by (simp del: fun_upd_apply)
    have each: "\<exists>r'. (Answered r # rs) ! j = Answered r' \<and> (isDone r' \<longleftrightarrow> j = length (a # as) - 1)"
      if "j < length (a # as)" for j
    proof (cases j)
      case 0
      then show ?thesis using r(2) False by (cases as) auto
    next
      case (Suc k)
      then have "k < length as" using that by simp
      with rs3 obtain r' where "rs ! k = Answered r'" "isDone r' \<longleftrightarrow> k = length as - 1" by blast
      then show ?thesis using Suc False by (cases as) auto
    qed
    have "length (Answered r # rs) = length (a # as)" using rs2 by simp
    with run each show ?thesis by blast
  qed
qed

text \<open>
  Claim C7 asks that every call of \<^verbatim>\<open>processAnswer\<close> made when no session exists yields the
  error of no active session, and that the last answer of a quiz removes the session.
  Evaluated on the empty store, where no session exists, at the subscriber
  \<^verbatim>\<open>constructor\<close>: \<^verbatim>\<open>getSession\<close> returns the function that the store inherits under
  that name, and \<^verbatim>\<open>processAnswer\<close> throws a \<^verbatim>\<open>TypeError\<close>. Evaluated at the subscriber
  \<^verbatim>\<open>__proto__\<close> after a start that found one question: the answer is the last one, its
  result is done, and the session, completed, is still what \<^verbatim>\<open>getSession\<close> returns.
\<close>

theorem inherited_key_is_no_session:
  "getSession Map.empty ''constructor'' = JsFunction ''constructor''
   \<and> processAnswer ''constructor'' ''A'' Map.empty = (Inl TypeError, Map.empty)
   \<and> (\<exists>r. fst (processAnswer ''__proto__'' ''A''
               (snd (startQuiz (take 1 sampleTable) ''__proto__'' Map.empty))) = Inr (Answered r)
          \<and> isDone r)
   \<and> getSession (snd (processAnswer ''__proto__'' ''A''
          (snd (startQuiz (take 1 sampleTable) ''__proto__'' Map.empty)))) ''__proto__'' =
       JsSession \<lparr> phoneNumber = ''__proto__'', currentQuestionIndex = 1,
              questions = [toQuestion (sampleRow ''1'' ''A'')], currentScore = 1,
              isCompleted = True, aggregateScore = 1 \<rparr>"
proof -
  let ?s = "\<lparr> phoneNumber = ''__proto__'', currentQuestionIndex = 0,
       questions = [toQuestion (sampleRow ''1'' ''A'')], currentScore = 0, isCompleted = False,
       aggregateScore = 0 \<rparr>"
  let ?store = "[''__proto__'' \<mapsto> ?s]"
  have st: "snd (startQuiz (take 1 sampleTable) ''__proto__'' Map.empty) = ?store"
    by (simp add: startQuiz_store getRandomQuestions_def sampleTable_def)
  have a: "getSession Map.empty ''constructor'' = JsFunction ''constructor''"
    by (simp add: getSession_def inherited_def objectPrototypeMembers_def)
  have b: "processAnswer ''constructor'' ''A'' Map.empty = (Inl TypeError, Map.empty)"
    by (simp add: processAnswer_def a truthy_def)
  have own: "?store ''__proto__'' = Some ?s" by simp
  have nc: "\<not> isCompleted ?s" by simp
  have q: "itemAt (questions ?s) (currentQuestionIndex ?s) = Some (toQuestion (sampleRow ''1'' ''A''))"
    by (simp add: itemAt_def)
  have ca: "correctAnswer (toQuestion (sampleRow ''1'' ''A'')) = Some ''A''"
    by (simp add: toQuestion_def sampleRow_def)
  have m: "answersMatch ''A'' ''A''"
    by (simp add: answersMatch_def)
  have ap: "applyAnswer ?s ''A'' ''A'' =
      \<lparr> phoneNumber = ''__proto__'', currentQuestionIndex = 1,
              questions = [toQuestion (sampleRow ''1'' ''A'')], currentScore = 1,
              isCompleted = True, aggregateScore = 1 \<rparr>"
    using m by (simp add: applyAnswer_def Let_def)
  note pa = processAnswer_active[of ?store "''__proto__''" ?s "toQuestion (sampleRow ''1'' ''A'')"
        "''A''" "''A''", OF own nc q ca]
  have c: "\<exists>r. fst (processAnswer ''__proto__'' ''A'' ?store) = Inr (Answered r) \<and> isDone r"
    unfolding pa by (simp add: Let_def applyAnswer_index applyAnswer_questions)
  have d: "snd (processAnswer ''__proto__'' ''A'' ?store) =
      ?store(''__proto__'' \<mapsto> applyAnswer ?s ''A'' ''A'')"
    unfolding pa by (simp add: Let_def applyAnswer_index applyAnswer_questions del: fun_upd_apply)
  have e: "getSession (snd (processAnswer ''__proto__'' ''A'' ?store)) ''__proto__'' =
       JsSession \<lparr> phoneNumber = ''__proto__'', currentQuestionIndex = 1,
              questions = [toQuestion (sampleRow ''1'' ''A'')], currentScore = 1,
              isCompleted = True, aggregateScore = 1 \<rparr>"
    unfolding d ap by (simp add: getSession_def)
  from a b c e show ?thesis unfolding st by blast
qed

text \<open>
  For a subscriber other than \<^verbatim>\<open>__proto__\<close> and questions that all have a correct answer
  the property holds: after a start that found \<open>N \<ge> 1\<close> questions, \<open>N\<close> answers, whatever they
  are, are all accepted; the first \<open>N - 1\<close> results are not done, the \<open>N\<close>-th is done, and the
  session is then gone from the store; a further answer then gets the error of no active
  session, when the store inherits nothing under the name of the subscriber. A call of
  \<^verbatim>\<open>processAnswer\<close> for a subscriber for whom \<^verbatim>\<open>getSession\<close> returns \<^verbatim>\<open>undefined\<close>
  returns the error of no active session and the store it was given; so does a call for a
  session that is completed.
\<close>

theorem quiz_done_after_all_answers:
  assumes "table \<noteq> []"
    and "length answers = length (getRandomQuestions table)"
    and "phone \<noteq> ''__proto__''"
    and "list_all (\<lambda>q. correctAnswer q \<noteq> None) (getRandomQuestions table)"
  shows "\<exists>results.
           processAnswers phone answers (snd (startQuiz table phone store)) =
             (Inr results, store(phone := None))
           \<and> length results = length answers
           \<and> (\<forall>j<length answers. \<exists>r. results ! j = Answered r
                 \<and> (isDone r \<longleftrightarrow> j = length answers - 1))
           \<and> (store ''__proto__'' = None \<and> phone \<notin> set objectPrototypeMembers \<longrightarrow>
                processAnswer phone answer (store(phone := None)) =
                  (Inr (NoActiveSession ''No active quiz session. Send START to begin.''),
                   store(phone := None)))
           \<and> (getSession store' phone' = JsUndefined \<longrightarrow>
                processAnswer phone' answer store' =
                  (Inr (NoActiveSession ''No active quiz session. Send START to begin.''), store'))
           \<and> (getSession store' phone' = JsSession completed \<and> isCompleted completed \<longrightarrow>
                processAnswer phone' answer store' =
                  (Inr (NoActiveSession ''No active quiz session. Send START to begin.''), store'))"
proof -
  let ?session = "\<lparr> phoneNumber = phone, currentQuestionIndex = 0,
       questions = getRandomQuestions table, currentScore = 0, isCompleted = False,
       aggregateScore = 0 \<rparr>"
  let ?store = "store(phone \<mapsto> ?session)"
  have s: "snd (startQuiz table phone store) = ?store" by (rule startQuiz_store)
  have h1: "?store phone = Some ?session" by simp
  have h2: "\<not> isCompleted ?session" by simp
  have h3: "currentQuestionIndex ?session + length answers = length (questions ?session)"
    using assms(2) by simp
  have h4: "answers \<noteq> []"
    using assms by (cases table) (auto simp: length_getRandomQuestions)
  have h5: "list_all (\<lambda>q. correctAnswer q \<noteq> None) (questions ?session)"
    using assms(4) by simp
  from processAnswers_to_the_end[of ?store phone ?session answers, OF h1 h2 h3 h4 h5 assms(3)]
  obtain rs where rs0: "processAnswers phone answers ?store = (Inr rs, ?store(phone := None))"
    and rs2: "length rs = length answers"
    and rs3: "\<forall>j<length answers. \<exists>r. rs ! j = Answered r \<and> (isDone r \<longleftrightarrow> j = length answers - 1)"
    by blast
  have "?store(phone := None) = store(phone := None)" by simp
  with rs0 s have rs1: "processAnswers phone answers (snd (startQuiz table phone store)) =
      (Inr rs, store(phone := None))" by simp
  have none: "processAnswer phone' answer store' =
               (Inr (NoActiveSession ''No active quiz session. Send START to begin.''), store')"
    if "getSession store' phone' = JsUndefined"
    by (rule processAnswer_falsy) (simp add: that truthy_def)
  have compl: "processAnswer phone' answer store' =
               (Inr (NoActiveSession ''No active quiz session. Send START to begin.''), store')"
    if "getSession store' phone' = JsSession completed \<and> isCompleted completed"
    using that by (simp add: processAnswer_def)
  have after: "processAnswer phone answer (store(phone := None)) =
                  (Inr (NoActiveSession ''No active quiz session. Send START to begin.''),
                   store(phone := None))"
    if "store ''__proto__'' = None \<and> phone \<notin> set objectPrototypeMembers"
  proof -
    from that assms(3) have "getSession (store(phone := None)) phone = JsUndefined"
      by (simp add: getSession_def inherited_def)
    then show ?thesis by (intro processAnswer_falsy) (simp add: truthy_def)
  qed
  from rs1 rs2 rs3 after none compl show ?thesis by blast
qed

theorem quiz_done_after_all_answers_witness:
  "sampleTable \<noteq> [] \<and> length sampleAnswers = length (getRandomQuestions sampleTable)
   \<and> ''2547000000'' \<noteq> ''__proto__''
   \<and> list_all (\<lambda>q. correctAnswer q \<noteq> None) (getRandomQuestions sampleTable)
   \<and> (\<exists>results.
         processAnswers ''2547000000'' sampleAnswers
             (snd (startQuiz sampleTable ''2547000000'' Map.empty)) =
           (Inr results, Map.empty)
         \<and> length results = 10
         \<and> (\<exists>r. results ! 8 = Answered r \<and> \<not> isDone r)
         \<and> (\<exists>r. results ! 9 = Answered r \<and> isDone r))
   \<and> getSession Map.empty ''2547000000'' = JsUndefined
   \<and> processAnswer ''2547000000'' ''A'' Map.empty =
       (Inr (NoActiveSession ''No active quiz session. Send START to begin.''), Map.empty)"
proof -
  have h1: "sampleTable \<noteq> []" by (simp add: sampleTable_def)
  have h2: "length sampleAnswers = length (getRandomQuestions sampleTable)"
    by (simp add: sampleAnswers_def length_getRandomQuestions sampleTable_def)
  have h3: "''2547000000'' \<noteq> ''__proto__''" by simp
  have h4: "list_all (\<lambda>q. correctAnswer q \<noteq> None) (getRandomQuestions sampleTable)"
    by (simp add: getRandomQuestions_def sampleTable_def toQuestion_def sampleRow_def)
  have len: "length sampleAnswers = 10" by (simp add: sampleAnswers_def)
  have e: "Map.empty(''2547000000'' := None) = (Map.empty :: sessionStore)" by simp
  have u: "getSession Map.empty ''2547000000'' = JsUndefined"
    by (simp add: getSession_def inherited_def objectPrototypeMembers_def)
  from quiz_done_after_all_answers[of sampleTable sampleAnswers "''2547000000''" Map.empty
      "''A''" Map.empty "''2547000000''" sampleSession, OF h1 h2 h3 h4]
  obtain results where
    r1: "processAnswers ''2547000000'' sampleAnswers
             (snd (startQuiz sampleTable ''2547000000'' Map.empty)) = (Inr results, Map.empty)"
    and r2: "length results = 10"
    and r3: "\<forall>j<10. \<exists>r. results ! j = Answered r \<and> (isDone r \<longleftrightarrow> j = 9)"
    and r4: "getSession Map.empty ''2547000000'' = JsUndefined \<longrightarrow>
       processAnswer ''2547000000'' ''A'' Map.empty =
       (Inr (NoActiveSession ''No active quiz session. Send START to begin.''), Map.empty)"
    unfolding e len by auto
  from r4 u have r5: "processAnswer ''2547000000'' ''A'' Map.empty =
       (Inr (NoActiveSession ''No active quiz session. Send START to begin.''), Map.empty)"
    by blast
  from r3 have "\<exists>r. results ! 8 = Answered r \<and> (isDone r \<longleftrightarrow> (8::nat) = 9)"
    by (rule allE[of _ 8]) simp
  then have a: "\<exists>r. results ! 8 = Answered r \<and> \<not> isDone r" by simp
  from r3 have "\<exists>r. results ! 9 = Answered r \<and> (isDone r \<longleftrightarrow> (9::nat) = 9)"
    by (rule allE[of _ 9]) simp
  then have b: "\<exists>r. results ! 9 = Answered r \<and> isDone r" by simp
  from a b r1 r2 r5 u h1 h2 h3 h4 show ?thesis by blast
qed

text \<open>With a question whose answer column is \<^verbatim>\<open>NULL\<close> the quiz does not go on: every answer
  to it throws a \<^verbatim>\<open>TypeError\<close> and leaves the session where it was.\<close>

lemma null_answer_stops_the_quiz:
  "processAnswer ''2547000000'' ''A''
     (snd (startQuiz [(sampleRow ''1'' ''A'')\<lparr>row_answer := None\<rparr>] ''2547000000'' Map.empty)) =
   (Inl TypeError,
    snd (startQuiz [(sampleRow ''1'' ''A'')\<lparr>row_answer := None\<rparr>] ''2547000000'' Map.empty))"
  by (simp add: startQuiz_store processAnswer_def getSession_def getRandomQuestions_def
      itemAt_def toQuestion_def sampleRow_def)

subsection \<open>The invariant of a session\<close>

lemma sessionInv_applyAnswer:
  assumes "sessionInv s" "\<not> isCompleted s"
  shows "sessionInv (applyAnswer s x a)"
  using assms by (auto simp add: sessionInv_def applyAnswer_def Let_def)

lemma processAnswer_keeps_inv:
  assumes "\<And>p s. store p = Some s \<Longrightarrow> sessionInv s \<and> (p \<noteq> ''__proto__'' \<longrightarrow> \<not> isCompleted s)"
    and "snd (processAnswer phone answer store) p = Some s"
  shows "sessionInv s \<and> (p \<noteq> ''__proto__'' \<longrightarrow> \<not> isCompleted s)"
proof -
  from processAnswer_steps[of phone answer store]
  consider "snd (processAnswer phone answer store) = store"
    | session expected where "store phone = Some session" "\<not> isCompleted session"
        "currentQuestionIndex session < length (questions session)"
        "snd (processAnswer phone answer store) =
             (if currentQuestionIndex session + 1 \<ge> length (questions session)
                 \<and> phone \<noteq> ''__proto__''
              then store(phone := None)
              else store(phone \<mapsto> applyAnswer session expected answer))"
    by blast
  then show ?thesis
  proof cases
    case 1
    then show ?thesis using assms by simp
  next
    case 2
    from assms(1)[OF 2(1)] have inv: "sessionInv session" by simp
    have inv': "sessionInv (applyAnswer session expected answer)"
      using inv 2(2) by (rule sessionInv_applyAnswer)
    show ?thesis
    proof (cases "p = phone")
      case False
      then have "store p = Some s" using assms(2) 2(4) by (simp split: if_splits)
      then show ?thesis by (rule assms(1))
    next
      case True
      then have s: "s = applyAnswer session expected answer"
        and c: "\<not> (currentQuestionIndex session + 1 \<ge> length (questions session)
                 \<and> phone \<noteq> ''__proto__'')"
        using assms(2) 2(4) by (auto split: if_splits)
      from c 2(2) have "p \<noteq> ''__proto__'' \<longrightarrow> \<not> isCompleted s"
        unfolding s True by (auto simp add: applyAnswer_completed)
      with inv' s show ?thesis by simp
    qed
  qed
qed

lemma reachableNonEmpty_inv:
  "reachableNonEmpty store \<Longrightarrow> store p = Some s \<Longrightarrow>
     sessionInv s \<and> (p \<noteq> ''__proto__'' \<longrightarrow> \<not> isCompleted s)"
proof (induction arbitrary: p s rule: reachableNonEmpty.induct)
  case rne_empty
  then show ?case by simp
next
  case (rne_start store table phone)
  then show ?case
    by (auto simp: startQuiz_store sessionInv_def length_getRandomQuestions min_def
        split: if_splits)
next
  case (rne_answer store phone answer)
  then show ?case using processAnswer_keeps_inv by blast
qed

text \<open>
  Claim C8 asks the invariant of every session that \<^verbatim>\<open>startQuiz\<close> produces. Evaluated at
  a start that finds the table empty: the session stored has index 0 and no question, and is
  not completed, so its completion flag differs from
  \<open>currentQuestionIndex = length questions\<close>; the next answer then throws a
  \<^verbatim>\<open>TypeError\<close>, since \<^verbatim>\<open>processAnswer\<close> reads the current question of every session
  that is not completed.
\<close>

theorem empty_table_session_breaks_invariant:
  "snd (startQuiz [] ''2547000000'' Map.empty) ''2547000000'' =
     Some \<lparr> phoneNumber = ''2547000000'', currentQuestionIndex = 0, questions = [],
            currentScore = 0, isCompleted = False, aggregateScore = 0 \<rparr>
   \<and> \<not> sessionInv \<lparr> phoneNumber = ''2547000000'', currentQuestionIndex = 0, questions = [],
            currentScore = 0, isCompleted = False, aggregateScore = 0 \<rparr>
   \<and> fst (processAnswer ''2547000000'' ''A'' (snd (startQuiz [] ''2547000000'' Map.empty))) =
       Inl TypeError"
  by (simp add: startQuiz_store sessionInv_def getRandomQuestions_def processAnswer_def
      getSession_def itemAt_def)

text \<open>
  Apart from that case the invariant holds: when every start finds at least one question,
  every session in a store reached by \<^verbatim>\<open>startQuiz\<close> and \<^verbatim>\<open>processAnswer\<close> has its index
  within the questions and is completed exactly when the index equals their number, and so
  has the session object after \<^verbatim>\<open>processAnswer\<close> has updated it, whether it is stored
  again or removed. (\<^verbatim>\<open>processAnswer\<close> updates a session only when it is not completed; a
  completed session is in the store only under \<^verbatim>\<open>__proto__\<close>.)
\<close>

theorem reachable_sessions_invariant:
  assumes "reachableNonEmpty store" and "store p = Some s"
  shows "sessionInv s
         \<and> (\<not> isCompleted s \<longrightarrow> sessionInv (applyAnswer s expected answer))
         \<and> (p \<noteq> ''__proto__'' \<longrightarrow> \<not> isCompleted s)"
proof -
  from reachableNonEmpty_inv[OF assms]
  have inv: "sessionInv s" and act: "p \<noteq> ''__proto__'' \<longrightarrow> \<not> isCompleted s" by simp_all
  from inv have "\<not> isCompleted s \<longrightarrow> sessionInv (applyAnswer s expected answer)"
    using sessionInv_applyAnswer by blast
  with inv act show ?thesis by blast
qed

theorem reachable_sessions_invariant_witness:
  "reachableNonEmpty (snd (startQuiz (take 1 sampleTable) ''2547000000'' Map.empty))
   \<and> snd (startQuiz (take 1 sampleTable) ''2547000000'' Map.empty) ''2547000000'' =
       Some \<lparr> phoneNumber = ''2547000000'', currentQuestionIndex = 0,
              questions = [toQuestion (sampleRow ''1'' ''A'')], currentScore = 0,
              isCompleted = False, aggregateScore = 0 \<rparr>
   \<and> sessionInv \<lparr> phoneNumber = ''2547000000'', currentQuestionIndex = 0,
              questions = [toQuestion (sampleRow ''1'' ''A'')], currentScore = 0,
              isCompleted = False, aggregateScore = 0 \<rparr>
   \<and> sessionInv \<lparr> phoneNumber = ''2547000000'', currentQuestionIndex = 1,
              questions = [toQuestion (sampleRow ''1'' ''A'')], currentScore = 1,
              isCompleted = True, aggregateScore = 1 \<rparr>"
proof -
  let ?s = "\<lparr> phoneNumber = ''2547000000'', currentQuestionIndex = 0,
              questions = [toQuestion (sampleRow ''1'' ''A'')], currentScore = 0,
              isCompleted = False, aggregateScore = 0 \<rparr>"
  have ne: "take 1 sampleTable \<noteq> []" by (simp add: sampleTable_def)
  have h1: "reachableNonEmpty (snd (startQuiz (take 1 sampleTable) ''2547000000'' Map.empty))"
    by (rule rne_start[OF rne_empty ne])
  have h2: "snd (startQuiz (take 1 sampleTable) ''2547000000'' Map.empty) ''2547000000'' = Some ?s"
    by (simp add: startQuiz_store getRandomQuestions_def sampleTable_def)
  have m: "answersMatch ''A'' ''a''"
    by (simp add: answersMatch_def toUpperCase_def trim_def isWhiteSpace_def upperChar_def)
  have a: "applyAnswer ?s ''A'' ''a'' =
      \<lparr> phoneNumber = ''2547000000'', currentQuestionIndex = 1,
              questions = [toQuestion (sampleRow ''1'' ''A'')], currentScore = 1,
              isCompleted = True, aggregateScore = 1 \<rparr>"
    using m by (simp add: applyAnswer_def Let_def)
  have nc: "\<not> isCompleted ?s" by simp
  from reachable_sessions_invariant[OF h1 h2, of "''A''" "''a''"] nc
  show ?thesis using h1 h2 unfolding a by blast
qed

section \<open>Properties of the gateway calls\<close>

subsection \<open>Facts about the retry loops\<close>

lemma failsRetryably_isRetryable:
  "failsRetryably (Rejected status respMessage errMessage) \<Longrightarrow> isRetryable status"
  by (auto simp: failsRetryably_def isRetryable_def split: option.splits)

lemma failsTerminally_not_isRetryable:
  "failsTerminally (Rejected status respMessage errMessage) \<Longrightarrow> \<not> isRetryable status"
  by (auto simp: failsTerminally_def isRetryable_def split: option.splits)

lemma retryEvents_same: "retryEvents e req k k = []"
  by (simp add: retryEvents_def)

lemma retryEvents_Suc:
  "k \<le> n \<Longrightarrow> retryEvents e req k (Suc n) =
     retryEvents e req k n @ [Post req, Sleep (computeDelay e (random e req n) n)]"
  by (simp add: retryEvents_def)

lemma posts_retryEvents: "posts (retryEvents e req k n) = n - k"
  by (induction n) (auto simp add: retryEvents_def posts_def)

lemma sleeps_retryEvents: "sleeps (retryEvents e req k n) = n - k"
  by (induction n) (auto simp add: retryEvents_def sleeps_def)

lemma subscribeAttempt_retry:
  assumes "int k < maxAttempts e" "failsRetryably r"
  shows "subscribeAttempt e k r = Retry"
  using assms failsRetryably_isRetryable
  by (cases r) (auto simp: subscribeAttempt_def failsRetryably_def)

lemma subscribeLoop_retry:
  assumes "int k < maxAttempts e"
    and "failsRetryably (gateway e (SubscriptionOutboundCreate (msisdn d) (subscriptionPlan d)) k)"
  shows "subscribeLoop e d k =
     (fst (subscribeLoop e d (k + 1)),
      [Post (SubscriptionOutboundCreate (msisdn d) (subscriptionPlan d)),
       Sleep (computeDelay e
          (random e (SubscriptionOutboundCreate (msisdn d) (subscriptionPlan d)) k) k)]
      @ snd (subscribeLoop e d (k + 1)))"
  using assms subscribeAttempt_retry[OF assms]
  by (subst subscribeLoop.simps) (simp add: Let_def split: prod.splits)

lemma subscribeLoop_skip:
  assumes "k \<le> n" and "int n \<le> maxAttempts e"
    and "\<forall>i\<in>{k..<n}. failsRetryably
           (gateway e (SubscriptionOutboundCreate (msisdn d) (subscriptionPlan d)) i)"
  shows "subscribeLoop e d k =
     (fst (subscribeLoop e d n),
      retryEvents e (SubscriptionOutboundCreate (msisdn d) (subscriptionPlan d)) k n
      @ snd (subscribeLoop e d n))"
  using assms
proof (induction n rule: dec_induct)
  case base
  then show ?case by (simp add: retryEvents_same)
next
  case (step m)
  then have "subscribeLoop e d k =
     (fst (subscribeLoop e d m),
      retryEvents e (SubscriptionOutboundCreate (msisdn d) (subscriptionPlan d)) k m
      @ snd (subscribeLoop e d m))" by simp
  moreover have "subscribeLoop e d m =
     (fst (subscribeLoop e d (m + 1)),
      [Post (SubscriptionOutboundCreate (msisdn d) (subscriptionPlan d)),
       Sleep (computeDelay e
          (random e (SubscriptionOutboundCreate (msisdn d) (subscriptionPlan d)) m) m)]
      @ snd (subscribeLoop e d (m + 1)))"
    using step.prems step.hyps by (intro subscribeLoop_retry) auto
  ultimately show ?case using step.hyps(1) by (simp add: retryEvents_Suc)
qed

lemma subscribeLoop_gives_up:
  assumes "int n \<le> maxAttempts e"
    and "failsTerminally (gateway e (SubscriptionOutboundCreate (msisdn d) (subscriptionPlan d)) n)
       \<or> (failsRetryably (gateway e (SubscriptionOutboundCreate (msisdn d) (subscriptionPlan d)) n)
           \<and> int n = maxAttempts e)"
  shows "subscribeLoop e d n =
     (Inl (Error (''Failed to subscribe user after '' @ showNat n @ '' '' @ attemptWord n @ '': ''
          @ rejectionText ''Subscription request failed''
              (gateway e (SubscriptionOutboundCreate (msisdn d) (subscriptionPlan d)) n))),
      [Post (SubscriptionOutboundCreate (msisdn d) (subscriptionPlan d))])"
proof -
  let ?r = "gateway e (SubscriptionOutboundCreate (msisdn d) (subscriptionPlan d)) n"
  have "subscribeAttempt e n ?r =
      Throw (''Failed to subscribe user after '' @ showNat n @ '' '' @ attemptWord n @ '': ''
          @ rejectionText ''Subscription request failed'' ?r)"
    using assms(2) failsTerminally_not_isRetryable
    by (cases ?r) (auto simp: subscribeAttempt_def rejectionText_def failsRetryably_def
        failsTerminally_def)
  then show ?thesis using assms(1)
    by (subst subscribeLoop.simps) (simp add: Let_def)
qed

lemma subscribeUser_gives_up:
  assumes "givesUpAt e (SubscriptionOutboundCreate (msisdn d) (subscriptionPlan d)) n"
  shows "subscribeUser e d =
     (Inl (Error (''Failed to subscribe user after '' @ showNat n @ '' '' @ attemptWord n @ '': ''
          @ rejectionText ''Subscription request failed''
              (gateway e (SubscriptionOutboundCreate (msisdn d) (subscriptionPlan d)) n))),
      retryEvents e (SubscriptionOutboundCreate (msisdn d) (subscriptionPlan d)) 1 n
      @ [Post (SubscriptionOutboundCreate (msisdn d) (subscriptionPlan d))])"
proof -
  from assms have a: "1 \<le> n" "int n \<le> maxAttempts e"
    "\<forall>i\<in>{1..<n}. failsRetryably
           (gateway e (SubscriptionOutboundCreate (msisdn d) (subscriptionPlan d)) i)"
    "failsTerminally (gateway e (SubscriptionOutboundCreate (msisdn d) (subscriptionPlan d)) n)
       \<or> (failsRetryably (gateway e (SubscriptionOutboundCreate (msisdn d) (subscriptionPlan d)) n)
           \<and> int n = maxAttempts e)"
    by (simp_all add: givesUpAt_def)
  have "subscribeLoop e d 1 =
     (fst (subscribeLoop e d n),
      retryEvents e (SubscriptionOutboundCreate (msisdn d) (subscriptionPlan d)) 1 n
      @ snd (subscribeLoop e d n))"
    by (rule subscribeLoop_skip[OF a(1,2,3)])
  then show ?thesis
    unfolding subscribeUser_def
    by (simp only: subscribeLoop_gives_up[OF a(2) a(4)] fst_conv snd_conv)
qed

lemma chargeAttempt_retry:
  assumes "int k < maxAttempts e" "failsRetryably r"
  shows "chargeAttempt e k r = Retry"
  using assms failsRetryably_isRetryable
  by (cases r) (auto simp: chargeAttempt_def failsRetryably_def)

lemma chargeLoop_retry:
  assumes "int k < maxAttempts e"
    and "failsRetryably (gateway e (ChargeOutboundCreate (msisdn d) (subscriptionPlan d)) k)"
  shows "chargeLoop e d k =
     (fst (chargeLoop e d (k + 1)),
      [Post (ChargeOutboundCreate (msisdn d) (subscriptionPlan d)),
       Sleep (computeDelay e
          (random e (ChargeOutboundCreate (msisdn d) (subscriptionPlan d)) k) k)]
      @ snd (chargeLoop e d (k + 1)))"
  using assms chargeAttempt_retry[OF assms]
  by (subst chargeLoop.simps) (simp add: Let_def split: prod.splits)

lemma chargeLoop_skip:
  assumes "k \<le> n" and "int n \<le> maxAttempts e"
    and "\<forall>i\<in>{k..<n}. failsRetryably
           (gateway e (ChargeOutboundCreate (msisdn d) (subscriptionPlan d)) i)"
  shows "chargeLoop e d k =
     (fst (chargeLoop e d n),
      retryEvents e (ChargeOutboundCreate (msisdn d) (subscriptionPlan d)) k n
      @ snd (chargeLoop e d n))"
  using assms
proof (induction n rule: dec_induct)
  case base
  then show ?case by (simp add: retryEvents_same)
next
  case (step m)
  then have "chargeLoop e d k =
     (fst (chargeLoop e d m),
      retryEvents e (ChargeOutboundCreate (msisdn d) (subscriptionPlan d)) k m
      @ snd (chargeLoop e d m))" by simp
  moreover have "chargeLoop e d m =
     (fst (chargeLoop e d (m + 1)),
      [Post (ChargeOutboundCreate (msisdn d) (subscriptionPlan d)),
       Sleep (computeDelay e
          (random e (ChargeOutboundCreate (msisdn d) (subscriptionPlan d)) m) m)]
      @ snd (chargeLoop e d (m + 1)))"
    using step.prems step.hyps by (intro chargeLoop_retry) auto
  ultimately show ?case using step.hyps(1) by (simp add: retryEvents_Suc)
qed

lemma chargeLoop_gives_up:
  assumes "int n \<le> maxAttempts e"
    and "failsTerminally (gateway e (ChargeOutboundCreate (msisdn d) (subscriptionPlan d)) n)
       \<or> (failsRetryably (gateway e (ChargeOutboundCreate (msisdn d) (subscriptionPlan d)) n)
           \<and> int n = maxAttempts e)"
  shows "chargeLoop e d n =
     (Inl (Error (''Failed to charge user after '' @ showNat n @ '' '' @ attemptWord n @ '': ''
          @ rejectionText ''Charge request failed''
              (gateway e (ChargeOutboundCreate (msisdn d) (subscriptionPlan d)) n))),
      [Post (ChargeOutboundCreate (msisdn d) (subscriptionPlan d))])"
proof -
  let ?r = "gateway e (ChargeOutboundCreate (msisdn d) (subscriptionPlan d)) n"
  have "chargeAttempt e n ?r =
      Throw (''Failed to charge user after '' @ showNat n @ '' '' @ attemptWord n @ '': ''
          @ rejectionText ''Charge request failed'' ?r)"
    using assms(2) failsTerminally_not_isRetryable
    by (cases ?r) (auto simp: chargeAttempt_def rejectionText_def failsRetryably_def
        failsTerminally_def)
  then show ?thesis using assms(1)
    by (subst chargeLoop.simps) (simp add: Let_def)
qed

lemma chargeUser_gives_up:
  assumes "givesUpAt e (ChargeOutboundCreate (msisdn d) (subscriptionPlan d)) n"
  shows "chargeUser e d =
     (Inl (Error (''Failed to charge user after '' @ showNat n @ '' '' @ attemptWord n @ '': ''
          @ rejectionText ''Charge request failed''
              (gateway e (ChargeOutboundCreate (msisdn d) (subscriptionPlan d)) n))),
      retryEvents e (ChargeOutboundCreate (msisdn d) (subscriptionPlan d)) 1 n
      @ [Post (ChargeOutboundCreate (msisdn d) (subscriptionPlan d))])"
proof -
  from assms have a: "1 \<le> n" "int n \<le> maxAttempts e"
    "\<forall>i\<in>{1..<n}. failsRetryably
           (gateway e (ChargeOutboundCreate (msisdn d) (subscriptionPlan d)) i)"
    "failsTerminally (gateway e (ChargeOutboundCreate (msisdn d) (subscriptionPlan d)) n)
       \<or> (failsRetryably (gateway e (ChargeOutboundCreate (msisdn d) (subscriptionPlan d)) n)
           \<and> int n = maxAttempts e)"
    by (simp_all add: givesUpAt_def)
  have "chargeLoop e d 1 =
     (fst (chargeLoop e d n),
      retryEvents e (ChargeOutboundCreate (msisdn d) (subscriptionPlan d)) 1 n
      @ snd (chargeLoop e d n))"
    by (rule chargeLoop_skip[OF a(1,2,3)])
  then show ?thesis
    unfolding chargeUser_def
    by (simp only: chargeLoop_gives_up[OF a(2) a(4)] fst_conv snd_conv)
qed

subsection \<open>Retryable and terminal failures\<close>

text \<open>
  Claim C2: in \<^verbatim>\<open>subscribeUser\<close> and in \<^verbatim>\<open>chargeUser\<close>, a rejection without a status or with a
  status 5xx, 429 or 408 is followed by the backoff sleep and the next attempt as long as
  attempts are left; if all \<open>maxAttempts\<close> attempts fail so, the error raised counts
  \<open>maxAttempts\<close> attempts; a rejection with another status 4xx at attempt \<open>n\<close> raises the
  error there, counting \<open>n\<close> attempts, with no sleep and no POST after it. In each case the
  call has made \<open>n\<close> POSTs and \<open>n - 1\<close> sleeps.
\<close>

theorem delivery_gives_up:
  "(givesUpAt e (SubscriptionOutboundCreate (msisdn d) (subscriptionPlan d)) n \<longrightarrow>
      subscribeUser e d =
        (Inl (Error (''Failed to subscribe user after '' @ showNat n @ '' '' @ attemptWord n @ '': ''
           @ rejectionText ''Subscription request failed''
               (gateway e (SubscriptionOutboundCreate (msisdn d) (subscriptionPlan d)) n))),
         retryEvents e (SubscriptionOutboundCreate (msisdn d) (subscriptionPlan d)) 1 n
         @ [Post (SubscriptionOutboundCreate (msisdn d) (subscriptionPlan d))])
      \<and> posts (snd (subscribeUser e d)) = n \<and> sleeps (snd (subscribeUser e d)) = n - 1)
   \<and> (givesUpAt e (ChargeOutboundCreate (msisdn d) (subscriptionPlan d)) n \<longrightarrow>
      chargeUser e d =
        (Inl (Error (''Failed to charge user after '' @ showNat n @ '' '' @ attemptWord n @ '': ''
           @ rejectionText ''Charge request failed''
               (gateway e (ChargeOutboundCreate (msisdn d) (subscriptionPlan d)) n))),
         retryEvents e (ChargeOutboundCreate (msisdn d) (subscriptionPlan d)) 1 n
         @ [Post (ChargeOutboundCreate (msisdn d) (subscriptionPlan d))])
      \<and> posts (snd (chargeUser e d)) = n \<and> sleeps (snd (chargeUser e d)) = n - 1)"
proof -
  have cnt: "posts (evs @ [Post req]) = posts evs + 1" "sleeps (evs @ [Post req]) = sleeps evs"
    for evs req
    by (simp_all add: posts_def sleeps_def)
  have sub: "posts (snd (subscribeUser e d)) = n \<and> sleeps (snd (subscribeUser e d)) = n - 1"
    if g: "givesUpAt e (SubscriptionOutboundCreate (msisdn d) (subscriptionPlan d)) n"
  proof -
    from g have "1 \<le> n" by (simp add: givesUpAt_def)
    then show ?thesis
      by (simp add: subscribeUser_gives_up[OF g] cnt posts_retryEvents sleeps_retryEvents)
  qed
  have chg: "posts (snd (chargeUser e d)) = n \<and> sleeps (snd (chargeUser e d)) = n - 1"
    if g: "givesUpAt e (ChargeOutboundCreate (msisdn d) (subscriptionPlan d)) n"
  proof -
    from g have "1 \<le> n" by (simp add: givesUpAt_def)
    then show ?thesis
      by (simp add: chargeUser_gives_up[OF g] cnt posts_retryEvents sleeps_retryEvents)
  qed
  show ?thesis
    using subscribeUser_gives_up[of e d n] chargeUser_gives_up[of e d n] sub chg
    by blast
qed

theorem delivery_gives_up_witness:
  "givesUpAt (sampleEnv (Some 3) (Rejected (Some 503) None ''Service Unavailable''))
      (SubscriptionOutboundCreate ''2547000000'' DAILY) 3
   \<and> fst (subscribeUser (sampleEnv (Some 3) (Rejected (Some 503) None ''Service Unavailable''))
          sampleUser) =
       Inl (Error ''Failed to subscribe user after 3 attempts: Service Unavailable'')
   \<and> posts (snd (subscribeUser (sampleEnv (Some 3) (Rejected (Some 503) None ''Service Unavailable''))
          sampleUser)) = 3
   \<and> sleeps (snd (subscribeUser (sampleEnv (Some 3) (Rejected (Some 503) None ''Service Unavailable''))
          sampleUser)) = 2
   \<and> givesUpAt (sampleEnv None (Rejected (Some 404) (Some ''Not Found'') ''Request failed''))
      (ChargeOutboundCreate ''2547000000'' DAILY) 1
   \<and> chargeUser (sampleEnv None (Rejected (Some 404) (Some ''Not Found'') ''Request failed''))
          sampleUser =
       (Inl (Error ''Failed to charge user after 1 attempt: Not Found''),
        [Post (ChargeOutboundCreate ''2547000000'' DAILY)])"
proof -
  let ?e = "sampleEnv (Some 3) (Rejected (Some 503) None ''Service Unavailable'')"
  let ?f = "sampleEnv None (Rejected (Some 404) (Some ''Not Found'') ''Request failed'')"
  have g1: "givesUpAt ?e (SubscriptionOutboundCreate (msisdn sampleUser) (subscriptionPlan sampleUser)) 3"
    by (simp add: givesUpAt_def sampleEnv_def maxAttempts_def numberOr_def failsRetryably_def)
  have g2: "givesUpAt ?f (ChargeOutboundCreate (msisdn sampleUser) (subscriptionPlan sampleUser)) 1"
    by (simp add: givesUpAt_def sampleEnv_def maxAttempts_def numberOr_def failsTerminally_def)
  have u: "msisdn sampleUser = ''2547000000''" "subscriptionPlan sampleUser = DAILY"
    by (simp_all add: sampleUser_def)
  have t1: "''Failed to subscribe user after '' @ showNat 3 @ '' '' @ attemptWord 3 @ '': ''
           @ rejectionText ''Subscription request failed''
               (gateway ?e (SubscriptionOutboundCreate ''2547000000'' DAILY) 3) =
         ''Failed to subscribe user after 3 attempts: Service Unavailable''"
    by (simp add: showNat.simps attemptWord_def rejectionText_def sampleEnv_def orElseStr_def)
  have t2: "''Failed to charge user after '' @ showNat 1 @ '' '' @ attemptWord 1 @ '': ''
           @ rejectionText ''Charge request failed''
               (gateway ?f (ChargeOutboundCreate ''2547000000'' DAILY) 1) =
         ''Failed to charge user after 1 attempt: Not Found''"
    by (simp add: showNat.simps attemptWord_def rejectionText_def sampleEnv_def orElseStr_def)
  from delivery_gives_up[of ?e sampleUser 3] g1
  have s: "subscribeUser ?e sampleUser =
        (Inl (Error (''Failed to subscribe user after '' @ showNat 3 @ '' '' @ attemptWord 3 @ '': ''
           @ rejectionText ''Subscription request failed''
               (gateway ?e (SubscriptionOutboundCreate (msisdn sampleUser) (subscriptionPlan sampleUser)) 3))),
         retryEvents ?e (SubscriptionOutboundCreate (msisdn sampleUser) (subscriptionPlan sampleUser)) 1 3
         @ [Post (SubscriptionOutboundCreate (msisdn sampleUser) (subscriptionPlan sampleUser))])"
    and a2: "posts (snd (subscribeUser ?e sampleUser)) = 3"
    and s3: "sleeps (snd (subscribeUser ?e sampleUser)) = 3 - 1"
    by blast+
  from s have a1: "fst (subscribeUser ?e sampleUser) =
       Inl (Error ''Failed to subscribe user after 3 attempts: Service Unavailable'')"
    by (simp only: u t1 fst_conv)
  from s3 have a3: "sleeps (snd (subscribeUser ?e sampleUser)) = 2" by simp
  from delivery_gives_up[of ?f sampleUser 1] g2
  have c: "chargeUser ?f sampleUser =
        (Inl (Error (''Failed to charge user after '' @ showNat 1 @ '' '' @ attemptWord 1 @ '': ''
           @ rejectionText ''Charge request failed''
               (gateway ?f (ChargeOutboundCreate (msisdn sampleUser) (subscriptionPlan sampleUser)) 1))),
         retryEvents ?f (ChargeOutboundCreate (msisdn sampleUser) (subscriptionPlan sampleUser)) 1 1
         @ [Post (ChargeOutboundCreate (msisdn sampleUser) (subscriptionPlan sampleUser))])"
    by blast
  then have b: "chargeUser ?f sampleUser =
       (Inl (Error ''Failed to charge user after 1 attempt: Not Found''),
        [Post (ChargeOutboundCreate ''2547000000'' DAILY)])"
    by (simp only: u t2 retryEvents_same append_Nil)
  note a = a1 a2 a3
  from a b g1 g2 show ?thesis unfolding u by blast
qed

subsection \<open>The backoff delay\<close>

lemma binade_le: "binade e x \<le> e"
  by (induction e x rule: binade.induct) (subst binade.simps, auto)

lemma binade_ge: "- 1022 \<le> e \<Longrightarrow> - 1022 \<le> binade e x"
  by (induction e x rule: binade.induct) (subst binade.simps, auto)

lemma binade_below: "binade e x \<le> - 1022 \<or> 2 powi (binade e x) \<le> x"
  by (induction e x rule: binade.induct) (subst binade.simps, subst (2) binade.simps, auto)

lemma roundHalfEven_upper: "of_int (roundHalfEven y) \<le> y + 1 / 2"
  unfolding roundHalfEven_def Let_def by (auto simp: not_less) linarith+

lemma roundHalfEven_int_le: "of_int m \<le> y \<Longrightarrow> m \<le> roundHalfEven y"
proof -
  assume "of_int m \<le> y"
  then have "m \<le> \<lfloor>y\<rfloor>" by (simp add: le_floor_iff)
  then show ?thesis unfolding roundHalfEven_def Let_def by auto
qed

lemma roundHalfEven_nonneg: "0 \<le> y \<Longrightarrow> 0 \<le> roundHalfEven y"
  using roundHalfEven_int_le[of 0 y] by simp

lemma quantum_pos: "0 < (2::rat) powi k"
  by simp

lemma roundToDouble_nonneg: "0 \<le> x \<Longrightarrow> 0 \<le> roundToDouble x"
  unfolding roundToDouble_def Let_def
  by (intro mult_nonneg_nonneg) (simp_all add: roundHalfEven_nonneg)

lemma roundToDouble_half_quantum:
  "roundToDouble x \<le> x + 2 powi (binade 6 x - 53)"
proof -
  let ?e = "binade 6 x"
  let ?q = "(2::rat) powi (?e - 52)"
  have q: "0 < ?q" by simp
  have "roundToDouble x = of_int (roundHalfEven (x / ?q)) * ?q"
    by (simp add: roundToDouble_def Let_def)
  also have "\<dots> \<le> (x / ?q + 1 / 2) * ?q"
    using roundHalfEven_upper[of "x / ?q"] q by (intro mult_right_mono) simp_all
  also have "\<dots> = x + ?q / 2" using q by (simp add: field_simps)
  also have "?q / 2 = 2 powi (?e - 53)"
    using power_int_diff[of "2::rat" "?e - 52" 1] by simp
  finally show ?thesis by simp
qed

lemma roundToDouble_relative:
  assumes "2 powi (binade 6 x) \<le> x"
  shows "roundToDouble x \<le> x * (1 + 1 / 2 ^ 53)"
proof -
  have "(2::rat) powi (binade 6 x - 53) = 2 powi (binade 6 x) / 2 ^ 53"
    using power_int_diff[of "2::rat" "binade 6 x" 53] by simp
  also have "\<dots> \<le> x / 2 ^ 53" using assms by (simp add: divide_right_mono)
  finally have "(2::rat) powi (binade 6 x - 53) \<le> x / 2 ^ 53" .
  with roundToDouble_half_quantum[of x] have "roundToDouble x \<le> x + x / 2 ^ 53" by linarith
  then show ?thesis by (simp add: algebra_simps)
qed

lemma roundToDouble_floor:
  "of_int \<lfloor>x\<rfloor> \<le> roundToDouble x"
proof -
  let ?e = "binade 6 x"
  let ?q = "(2::rat) powi (?e - 52)"
  let ?k = "nat (52 - ?e)"
  have e: "?e \<le> 6" by (rule binade_le)
  have q: "0 < ?q" by simp
  have inv: "1 / ?q = 2 ^ ?k"
  proof -
    have "(2::rat) powi (- (?e - 52)) = 1 / ?q" by (rule power_int_minus_divide)
    moreover have "- (?e - 52) = 52 - ?e" by simp
    ultimately have "1 / ?q = 2 powi (52 - ?e)" by simp
    also have "\<dots> = 2 ^ ?k" using e by (intro power_int_nonneg_exp) simp
    finally show ?thesis .
  qed
  have "of_int (\<lfloor>x\<rfloor> * 2 ^ ?k) = of_int \<lfloor>x\<rfloor> * (1 / ?q)" by (simp add: inv)
  also have "\<dots> \<le> x * (1 / ?q)" using q by (intro mult_right_mono) simp_all
  finally have "of_int (\<lfloor>x\<rfloor> * 2 ^ ?k) \<le> x / ?q" by simp
  then have "\<lfloor>x\<rfloor> * 2 ^ ?k \<le> roundHalfEven (x / ?q)" by (rule roundHalfEven_int_le)
  then have "(of_int (\<lfloor>x\<rfloor> * 2 ^ ?k) :: rat) \<le> of_int (roundHalfEven (x / ?q))"
    by (simp only: of_int_le_iff)
  then have A: "of_int (\<lfloor>x\<rfloor> * 2 ^ ?k) * ?q \<le> of_int (roundHalfEven (x / ?q)) * ?q"
    using q by (intro mult_right_mono) simp_all
  have B: "of_int (\<lfloor>x\<rfloor> * 2 ^ ?k) * ?q = of_int \<lfloor>x\<rfloor>"
  proof -
    have "of_int (\<lfloor>x\<rfloor> * 2 ^ ?k) * ?q = of_int \<lfloor>x\<rfloor> * ((1 / ?q) * ?q)"
      by (simp add: inv flip: mult.assoc)
    also have "\<dots> = of_int \<lfloor>x\<rfloor>" using q by simp
    finally show ?thesis .
  qed
  from A have "of_int \<lfloor>x\<rfloor> \<le> of_int (roundHalfEven (x / ?q)) * ?q" by (simp only: B)
  then show ?thesis by (simp only: roundToDouble_def Let_def)
qed

lemma subnormal_small:
  assumes "0 \<le> x" and "\<not> 2 powi (binade 6 x) \<le> x"
  shows "roundToDouble x < 1"
proof -
  from assms(2) binade_below[of 6 x] have "binade 6 x \<le> - 1022" by blast
  then have le: "(2::rat) powi (binade 6 x) \<le> 2 powi (- 1)" "(2::rat) powi (binade 6 x - 53) \<le> 2 powi (- 2)"
    by (intro power_int_increasing; simp)+
  from assms(2) le have "x < 1 / 2" by simp
  moreover from le have "(2::rat) powi (binade 6 x - 53) \<le> 1 / 4" by simp
  ultimately show ?thesis using roundToDouble_half_quantum[of x] by linarith
qed

lemma jitter_range:
  assumes "0 \<le> r" and "r \<le> 1 - 1 / 2 ^ 53"
  shows "0 \<le> jitter r \<and> jitter r < 100"
proof -
  let ?x = "r * 100"
  have x0: "0 \<le> ?x" using assms(1) by simp
  have "roundToDouble ?x < 100"
  proof (cases "2 powi (binade 6 ?x) \<le> ?x")
    case True
    then have "roundToDouble ?x \<le> ?x * (1 + 1 / 2 ^ 53)" by (rule roundToDouble_relative)
    also have "\<dots> \<le> ((1 - 1 / 2 ^ 53) * 100) * (1 + 1 / 2 ^ 53)"
      using assms(2) by (intro mult_right_mono) simp_all
    also have "\<dots> < 100" by simp
    finally show ?thesis .
  next
    case False
    with x0 have "roundToDouble ?x < 1" by (rule subnormal_small)
    then show ?thesis by simp
  qed
  then have "jitter r < 100" by (simp add: jitter_def floor_less_iff)
  moreover have "0 \<le> jitter r" using roundToDouble_nonneg[OF x0] by (simp add: jitter_def)
  ultimately show ?thesis by simp
qed

lemma jitter_floor:
  assumes "0 \<le> r"
  shows "\<lfloor>r * 100\<rfloor> \<le> jitter r \<and> jitter r \<le> \<lfloor>r * 100 * (1 + 1 / 2 ^ 53)\<rfloor>"
proof -
  let ?x = "r * 100"
  have x0: "0 \<le> ?x" using assms(1) by simp
  have lo: "\<lfloor>?x\<rfloor> \<le> jitter r"
    using roundToDouble_floor[of ?x] by (simp add: jitter_def le_floor_iff)
  have hi: "jitter r \<le> \<lfloor>?x * (1 + 1 / 2 ^ 53)\<rfloor>"
  proof (cases "2 powi (binade 6 ?x) \<le> ?x")
    case True
    then have "roundToDouble ?x \<le> ?x * (1 + 1 / 2 ^ 53)" by (rule roundToDouble_relative)
    then show ?thesis unfolding jitter_def by (rule floor_mono)
  next
    case False
    with x0 have "roundToDouble ?x < 1" by (rule subnormal_small)
    with roundToDouble_nonneg[OF x0] have "jitter r = 0"
      unfolding jitter_def by (simp add: floor_eq_iff)
    moreover have "0 \<le> ?x * (1 + 1 / 2 ^ 53)" using x0 by simp
    ultimately show ?thesis by simp
  qed
  from lo hi show ?thesis by simp
qed

lemma jitter_half: "jitter (1 / 2) = 50"
  by code_simp

lemma jitter_tie: "jitter (2206763817411543 / 2 ^ 52) = 49"
  by code_simp

lemma jitter_interval:
  assumes "0 \<le> r"
  shows "(of_int j / 100 \<le> r \<and> r * (1 + 1 / 2 ^ 53) < (of_int j + 1) / 100 \<longrightarrow> jitter r = j)
       \<and> (jitter r = j \<longrightarrow> of_int j / 100 \<le> r * (1 + 1 / 2 ^ 53) \<and> r < (of_int j + 1) / 100)"
proof -
  note b = jitter_floor[OF assms]
  have 1: "jitter r = j" if "of_int j / 100 \<le> r" "r * (1 + 1 / 2 ^ 53) < (of_int j + 1) / 100"
  proof -
    from that(1) have "of_int j \<le> r * 100" by (simp add: pos_divide_le_eq)
    then have "j \<le> \<lfloor>r * 100\<rfloor>" by (simp only: le_floor_iff)
    moreover from that(2) have "r * 100 * (1 + 1 / 2 ^ 53) < of_int j + 1"
      by (simp add: pos_less_divide_eq algebra_simps)
    then have "r * 100 * (1 + 1 / 2 ^ 53) < of_int (j + 1)" by simp
    then have "\<lfloor>r * 100 * (1 + 1 / 2 ^ 53)\<rfloor> < j + 1" by (simp only: floor_less_iff)
    ultimately show ?thesis using b by linarith
  qed
  have 2: "of_int j / 100 \<le> r * (1 + 1 / 2 ^ 53) \<and> r < (of_int j + 1) / 100" if "jitter r = j"
  proof -
    from b that have lo: "\<lfloor>r * 100\<rfloor> \<le> j" and hi: "j \<le> \<lfloor>r * 100 * (1 + 1 / 2 ^ 53)\<rfloor>" by simp_all
    from lo have "\<lfloor>r * 100\<rfloor> < j + 1" by simp
    then have "r * 100 < of_int (j + 1)" by (simp only: floor_less_iff)
    then have "r * 100 < of_int j + 1" by simp
    then have A: "r < (of_int j + 1) / 100" by (simp add: pos_less_divide_eq)
    from hi have "of_int j \<le> r * 100 * (1 + 1 / 2 ^ 53)" by (simp only: le_floor_iff)
    then have B: "of_int j / 100 \<le> r * (1 + 1 / 2 ^ 53)" by (simp add: pos_divide_le_eq algebra_simps)
    from A B show ?thesis by simp
  qed
  from 1 2 show ?thesis by blast
qed

lemma subscribeLoop_sleep:
  assumes "int n \<le> maxAttempts e"
    and "subscribeAttempt e n
           (gateway e (SubscriptionOutboundCreate (msisdn d) (subscriptionPlan d)) n) = Retry"
  shows "snd (subscribeLoop e d n) =
     Post (SubscriptionOutboundCreate (msisdn d) (subscriptionPlan d))
     # Sleep (computeDelay e
          (random e (SubscriptionOutboundCreate (msisdn d) (subscriptionPlan d)) n) n)
     # snd (subscribeLoop e d (n + 1))"
  using assms
  by (subst subscribeLoop.simps) (simp add: Let_def split: prod.splits)

lemma chargeLoop_sleep:
  assumes "int n \<le> maxAttempts e"
    and "chargeAttempt e n
           (gateway e (ChargeOutboundCreate (msisdn d) (subscriptionPlan d)) n) = Retry"
  shows "snd (chargeLoop e d n) =
     Post (ChargeOutboundCreate (msisdn d) (subscriptionPlan d))
     # Sleep (computeDelay e
          (random e (ChargeOutboundCreate (msisdn d) (subscriptionPlan d)) n) n)
     # snd (chargeLoop e d (n + 1))"
  using assms
  by (subst chargeLoop.simps) (simp add: Let_def split: prod.splits)

text \<open>
  Claim C4: for every attempt \<open>n \<ge> 1\<close> and every double \<open>r\<close> that \<^verbatim>\<open>Math.random()\<close> can
  return (\<open>0 \<le> r \<le> 1 - 2 ^ - 53\<close>), with a base delay and a maximal delay that doubles hold
  exactly, the delay is \<open>min maxDelay (baseDelay * 2 ^ (n - 1))\<close> plus a jitter; the jitter is
  a whole number in \<open>[0, 100)\<close>; it is \<open>j\<close> for every \<open>r\<close> from \<open>j / 100\<close> up to
  \<open>(j + 1) / 100\<close> less one part in \<open>2 ^ 53\<close>, and only for \<open>r\<close> from \<open>j / 100\<close> less one part
  in \<open>2 ^ 53\<close> up to \<open>(j + 1) / 100\<close>, so that the draws that give \<open>j\<close> fill an interval of
  the same length, up to the rounding of one product, for every \<open>j\<close>; each of the three
  parameters is the number that the environment sets, and 500, 5000 and 5 when the
  environment does not set it or sets it to zero; and whenever an attempt of
  \<^verbatim>\<open>subscribeUser\<close> or \<^verbatim>\<open>chargeUser\<close> is retried, the sleep before the next attempt is this
  delay.
\<close>

theorem backoff_delay:
  assumes "1 \<le> n" and "0 \<le> r" and "r \<le> 1 - 1 / 2 ^ 53"
    and "0 \<le> baseDelayMs e" and "baseDelayMs e < 2 ^ 53"
    and "\<bar>maxDelayMs e\<bar> \<le> 2 ^ 53 - 100"
  shows "computeDelay e r n = min (maxDelayMs e) (baseDelayMs e * 2 ^ (n - 1)) + jitter r
         \<and> 0 \<le> jitter r \<and> jitter r < 100
         \<and> (of_int j / 100 \<le> r \<and> r * (1 + 1 / 2 ^ 53) < (of_int j + 1) / 100 \<longrightarrow> jitter r = j)
         \<and> (jitter r = j \<longrightarrow> of_int j / 100 \<le> r * (1 + 1 / 2 ^ 53) \<and> r < (of_int j + 1) / 100)
         \<and> baseDelayMs e =
             (case PISI_RETRY_BASE_DELAY_MS e of None \<Rightarrow> 500 | Some b \<Rightarrow> if b = 0 then 500 else b)
         \<and> maxDelayMs e =
             (case PISI_RETRY_MAX_DELAY_MS e of None \<Rightarrow> 5000 | Some m \<Rightarrow> if m = 0 then 5000 else m)
         \<and> maxAttempts e =
             (case PISI_RETRY_MAX_ATTEMPTS e of None \<Rightarrow> 5 | Some a \<Rightarrow> if a = 0 then 5 else a)
         \<and> (int n \<le> maxAttempts e
              \<and> subscribeAttempt e n
                   (gateway e (SubscriptionOutboundCreate (msisdn d) (subscriptionPlan d)) n) = Retry
              \<longrightarrow> snd (subscribeLoop e d n) =
                    Post (SubscriptionOutboundCreate (msisdn d) (subscriptionPlan d))
                    # Sleep (computeDelay e
                         (random e (SubscriptionOutboundCreate (msisdn d) (subscriptionPlan d)) n) n)
                    # snd (subscribeLoop e d (n + 1)))
         \<and> (int n \<le> maxAttempts e
              \<and> chargeAttempt e n
                   (gateway e (ChargeOutboundCreate (msisdn d) (subscriptionPlan d)) n) = Retry
              \<longrightarrow> snd (chargeLoop e d n) =
                    Post (ChargeOutboundCreate (msisdn d) (subscriptionPlan d))
                    # Sleep (computeDelay e
                         (random e (ChargeOutboundCreate (msisdn d) (subscriptionPlan d)) n) n)
                    # snd (chargeLoop e d (n + 1)))"
proof -
  have a: "computeDelay e r n = min (maxDelayMs e) (baseDelayMs e * 2 ^ (n - 1)) + jitter r"
    by (simp add: computeDelay_def Let_def)
  have b: "0 \<le> jitter r \<and> jitter r < 100" using assms(2,3) by (rule jitter_range)
  note c = jitter_interval[OF assms(2), of j]
  have d: "baseDelayMs e =
             (case PISI_RETRY_BASE_DELAY_MS e of None \<Rightarrow> 500 | Some b \<Rightarrow> if b = 0 then 500 else b)"
    "maxDelayMs e =
             (case PISI_RETRY_MAX_DELAY_MS e of None \<Rightarrow> 5000 | Some m \<Rightarrow> if m = 0 then 5000 else m)"
    "maxAttempts e =
             (case PISI_RETRY_MAX_ATTEMPTS e of None \<Rightarrow> 5 | Some a \<Rightarrow> if a = 0 then 5 else a)"
    by (simp_all add: baseDelayMs_def maxDelayMs_def maxAttempts_def numberOr_def)
  from a b c d subscribeLoop_sleep[of n e d] chargeLoop_sleep[of n e d] show ?thesis
    by blast
qed

theorem backoff_delay_witness:
  "(1::nat) \<le> 2 \<and> (0::rat) \<le> 2206763817411543 / 2 ^ 52
   \<and> (2206763817411543 / 2 ^ 52 :: rat) \<le> 1 - 1 / 2 ^ 53
   \<and> 0 \<le> baseDelayMs configuredEnv \<and> baseDelayMs configuredEnv < 2 ^ 53
   \<and> \<bar>maxDelayMs configuredEnv\<bar> \<le> 2 ^ 53 - 100
   \<and> baseDelayMs configuredEnv = 200 \<and> maxDelayMs configuredEnv = 1000
   \<and> maxAttempts configuredEnv = 3
   \<and> \<lfloor>(2206763817411543 / 2 ^ 52 :: rat) * 100\<rfloor> = 48
   \<and> jitter (2206763817411543 / 2 ^ 52) = 49
   \<and> computeDelay configuredEnv (2206763817411543 / 2 ^ 52) 2 = 449
   \<and> computeDelay configuredEnv (2206763817411543 / 2 ^ 52) 4 = 1049
   \<and> computeDelay (sampleEnv None (Rejected None None ''timeout of 10000ms exceeded'')) (3 / 8) 1 = 537
   \<and> computeDelay (sampleEnv None (Rejected None None ''timeout of 10000ms exceeded'')) (3 / 8) 5 = 5037
   \<and> maxAttempts (sampleEnv None (Rejected None None ''timeout of 10000ms exceeded'')) = 5
   \<and> snd (subscribeLoop configuredEnv sampleUser 2) =
       [Post (SubscriptionOutboundCreate ''2547000000'' DAILY), Sleep 449,
        Post (SubscriptionOutboundCreate ''2547000000'' DAILY)]"
proof -
  let ?e = "sampleEnv None (Rejected None None ''timeout of 10000ms exceeded'')"
  let ?r = "2206763817411543 / 2 ^ 52 :: rat"
  have h: "(1::nat) \<le> 2" "(1::nat) \<le> 4" "(1::nat) \<le> 1" "(1::nat) \<le> 5"
    "(0::rat) \<le> ?r" "?r \<le> 1 - 1 / 2 ^ 53" "(0::rat) \<le> 3 / 8" "(3 / 8 :: rat) \<le> 1 - 1 / 2 ^ 53"
    by simp_all
  have cfg: "PISI_RETRY_BASE_DELAY_MS configuredEnv = Some 200"
    "PISI_RETRY_MAX_DELAY_MS configuredEnv = Some 1000"
    "PISI_RETRY_MAX_ATTEMPTS configuredEnv = Some 3"
    "PISI_RETRY_BASE_DELAY_MS ?e = None" "PISI_RETRY_MAX_DELAY_MS ?e = None"
    "PISI_RETRY_MAX_ATTEMPTS ?e = None"
    by (simp_all add: configuredEnv_def sampleEnv_def)
  have ex: "0 \<le> baseDelayMs configuredEnv" "baseDelayMs configuredEnv < 2 ^ 53"
    "\<bar>maxDelayMs configuredEnv\<bar> \<le> 2 ^ 53 - 100"
    "0 \<le> baseDelayMs ?e" "baseDelayMs ?e < 2 ^ 53" "\<bar>maxDelayMs ?e\<bar> \<le> 2 ^ 53 - 100"
    by (simp_all add: baseDelayMs_def maxDelayMs_def numberOr_def cfg)
  have u: "msisdn sampleUser = ''2547000000''" "subscriptionPlan sampleUser = DAILY"
    by (simp_all add: sampleUser_def)
  note c2 = backoff_delay[OF h(1) h(5) h(6) ex(1) ex(2) ex(3), of 49 sampleUser]
  note c4 = backoff_delay[OF h(2) h(5) h(6) ex(1) ex(2) ex(3), of 49 sampleUser]
  note s1 = backoff_delay[OF h(3) h(7) h(8) ex(4) ex(5) ex(6), of 37 sampleUser]
  note s5 = backoff_delay[OF h(4) h(7) h(8) ex(4) ex(5) ex(6), of 37 sampleUser]
  from c2 have "baseDelayMs configuredEnv =
      (case PISI_RETRY_BASE_DELAY_MS configuredEnv of None \<Rightarrow> 500 | Some b \<Rightarrow> if b = 0 then 500 else b)"
    and "maxDelayMs configuredEnv =
      (case PISI_RETRY_MAX_DELAY_MS configuredEnv of None \<Rightarrow> 5000 | Some m \<Rightarrow> if m = 0 then 5000 else m)"
    and "maxAttempts configuredEnv =
      (case PISI_RETRY_MAX_ATTEMPTS configuredEnv of None \<Rightarrow> 5 | Some a \<Rightarrow> if a = 0 then 5 else a)"
    by blast+
  then have base: "baseDelayMs configuredEnv = 200" and cap: "maxDelayMs configuredEnv = 1000"
    and att: "maxAttempts configuredEnv = 3"
    by (simp_all add: cfg)
  from s1 have "baseDelayMs ?e =
      (case PISI_RETRY_BASE_DELAY_MS ?e of None \<Rightarrow> 500 | Some b \<Rightarrow> if b = 0 then 500 else b)"
    and "maxDelayMs ?e =
      (case PISI_RETRY_MAX_DELAY_MS ?e of None \<Rightarrow> 5000 | Some m \<Rightarrow> if m = 0 then 5000 else m)"
    and "maxAttempts ?e =
      (case PISI_RETRY_MAX_ATTEMPTS ?e of None \<Rightarrow> 5 | Some a \<Rightarrow> if a = 0 then 5 else a)"
    by blast+
  then have base': "baseDelayMs ?e = 500" and cap': "maxDelayMs ?e = 5000"
    and att': "maxAttempts ?e = 5"
    by (simp_all add: cfg)
  have fl: "\<lfloor>?r * 100\<rfloor> = 48" by code_simp
  from c2 have "jitter ?r = 49 \<longrightarrow> of_int 49 / 100 \<le> ?r * (1 + 1 / 2 ^ 53) \<and> ?r < (of_int 49 + 1) / 100"
    by blast
  have j: "jitter ?r = 49" by (rule jitter_tie)
  from s1 have "of_int 37 / 100 \<le> (3 / 8 :: rat) \<and> (3 / 8 :: rat) * (1 + 1 / 2 ^ 53) < (of_int 37 + 1) / 100
      \<longrightarrow> jitter (3 / 8) = 37"
    by blast
  then have j': "jitter (3 / 8) = 37" by simp
  from c2 have "computeDelay configuredEnv ?r 2 =
      min (maxDelayMs configuredEnv) (baseDelayMs configuredEnv * 2 ^ (2 - 1)) + jitter ?r"
    by blast
  then have d2: "computeDelay configuredEnv ?r 2 = 449" by (simp only: base cap j) simp
  from c4 have "computeDelay configuredEnv ?r 4 =
      min (maxDelayMs configuredEnv) (baseDelayMs configuredEnv * 2 ^ (4 - 1)) + jitter ?r"
    by blast
  then have d4: "computeDelay configuredEnv ?r 4 = 1049" by (simp only: base cap j) simp
  from s1 have "computeDelay ?e (3 / 8) 1 = min (maxDelayMs ?e) (baseDelayMs ?e * 2 ^ (1 - 1)) + jitter (3 / 8)"
    by blast
  then have d1': "computeDelay ?e (3 / 8) 1 = 537" by (simp only: base' cap' j') simp
  from s5 have "computeDelay ?e (3 / 8) 5 = min (maxDelayMs ?e) (baseDelayMs ?e * 2 ^ (5 - 1)) + jitter (3 / 8)"
    by blast
  then have d5': "computeDelay ?e (3 / 8) 5 = 5037" by (simp only: base' cap' j') simp
  have retry: "int 2 \<le> maxAttempts configuredEnv \<and> subscribeAttempt configuredEnv 2
       (gateway configuredEnv (SubscriptionOutboundCreate (msisdn sampleUser) (subscriptionPlan sampleUser)) 2) = Retry"
    by (simp add: att) (simp add: configuredEnv_def subscribeAttempt_def isRetryable_def maxAttempts_def numberOr_def)
  from c2 retry have s2: "snd (subscribeLoop configuredEnv sampleUser 2) =
                    Post (SubscriptionOutboundCreate (msisdn sampleUser) (subscriptionPlan sampleUser))
                    # Sleep (computeDelay configuredEnv
                         (random configuredEnv (SubscriptionOutboundCreate (msisdn sampleUser) (subscriptionPlan sampleUser)) 2) 2)
                    # snd (subscribeLoop configuredEnv sampleUser (2 + 1))"
    by blast
  have rnd: "random configuredEnv x 2 = ?r" for x
    by (simp add: configuredEnv_def)
  have last: "snd (subscribeLoop configuredEnv sampleUser (2 + 1)) =
      [Post (SubscriptionOutboundCreate ''2547000000'' DAILY)]"
    by (subst subscribeLoop.simps)
      (simp add: att Let_def u, simp add: configuredEnv_def subscribeAttempt_def isRetryable_def maxAttempts_def numberOr_def)
  from s2 have "snd (subscribeLoop configuredEnv sampleUser 2) =
       [Post (SubscriptionOutboundCreate ''2547000000'' DAILY), Sleep 449,
        Post (SubscriptionOutboundCreate ''2547000000'' DAILY)]"
    by (simp only: rnd d2 last u)
  with h ex base cap att fl j d2 d4 d1' d5' att' show ?thesis by blast
qed

subsection \<open>One executor for the three kinds of action?\<close>

lemma orElseStr_nonempty: "b \<noteq> [] \<Longrightarrow> orElseStr a b \<noteq> []"
  by (simp add: orElseStr_def split: option.splits)

lemma orElseStr_Some_nonempty: "s \<noteq> [] \<Longrightarrow> orElseStr (Some s) b = s"
  by (simp add: orElseStr_def)

lemma orElseStr_None: "orElseStr None b = b"
  by (simp add: orElseStr_def)

lemma subscribeAttempt_classify:
  "subscribeAttempt e n r =
     (case classify subscribeWording r of
        Success data \<Rightarrow> Return data
      | TerminalFailure m \<Rightarrow>
          Throw (''Failed to subscribe user after '' @ showNat n @ '' '' @ attemptWord n @ '': '' @ m)
      | RetryableFailure m \<Rightarrow>
          if int n < maxAttempts e then Retry
          else Throw (''Failed to subscribe user after '' @ showNat n @ '' '' @ attemptWord n @ '': '' @ m))"
proof (cases r)
  case (Resolved data)
  show ?thesis
  proof (cases data)
    case None
    with Resolved show ?thesis
      by (simp add: subscribeAttempt_def classify_def subscribeWording_def succeeded_def
          isRetryable_def orElseStr_None orElseStr_Some_nonempty)
  next
    case (Some body)
    have ne: "orElseStr (data_message body)
        (orElseStr (data_error body) ''Subscription request did not succeed'') \<noteq> []"
      by (intro orElseStr_nonempty) simp
    from Resolved Some show ?thesis
      by (simp add: subscribeAttempt_def classify_def subscribeWording_def succeeded_def
          isRetryable_def orElseStr_None orElseStr_Some_nonempty[OF ne])
  qed
next
  case (Rejected status respMessage errMessage)
  then show ?thesis
    by (simp add: subscribeAttempt_def classify_def subscribeWording_def)
qed

lemma chargeAttempt_classify:
  "chargeAttempt e n r =
     (case classify chargeWording r of
        Success data \<Rightarrow> Return data
      | TerminalFailure m \<Rightarrow>
          Throw (''Failed to charge user after '' @ showNat n @ '' '' @ attemptWord n @ '': '' @ m)
      | RetryableFailure m \<Rightarrow>
          if int n < maxAttempts e then Retry
          else Throw (''Failed to charge user after '' @ showNat n @ '' '' @ attemptWord n @ '': '' @ m))"
proof (cases r)
  case (Resolved data)
  show ?thesis
  proof (cases data)
    case None
    with Resolved show ?thesis
      by (simp add: chargeAttempt_def classify_def chargeWording_def succeeded_def
          isRetryable_def orElseStr_None orElseStr_Some_nonempty)
  next
    case (Some body)
    have ne: "orElseStr (data_message body)
        (orElseStr (data_error body) ''Charge request did not succeed'') \<noteq> []"
      by (intro orElseStr_nonempty) simp
    from Resolved Some show ?thesis
      by (simp add: chargeAttempt_def classify_def chargeWording_def succeeded_def
          isRetryable_def orElseStr_None orElseStr_Some_nonempty[OF ne])
  qed
next
  case (Rejected status respMessage errMessage)
  then show ?thesis
    by (simp add: chargeAttempt_def classify_def chargeWording_def)
qed

lemma subscribeLoop_specExecute:
  "subscribeLoop e d n =
     specExecute subscribeWording e (SubscriptionOutboundCreate (msisdn d) (subscriptionPlan d)) n"
proof (induction e d n rule: subscribeLoop.induct)
  case (1 e d attempt)
  let ?req = "SubscriptionOutboundCreate (msisdn d) (subscriptionPlan d)"
  show ?case
  proof (cases "int attempt \<le> maxAttempts e")
    case False
    then show ?thesis
      by (subst subscribeLoop.simps, subst specExecute.simps)
        (simp add: subscribeWording_def)
  next
    case True
    show ?thesis
    proof (cases "subscribeAttempt e attempt (gateway e ?req attempt) = Retry")
      case False
      with True show ?thesis
        by (subst subscribeLoop.simps, subst specExecute.simps)
          (auto simp add: subscribeAttempt_classify deliveryFailed_def subscribeWording_def
            split: verdict.splits if_splits)
    next
      case retry: True
      from 1[OF refl True retry]
      have "subscribeLoop e d (attempt + 1) = specExecute subscribeWording e ?req (attempt + 1)" .
      then have ih: "subscribeLoop e d (Suc attempt) = specExecute subscribeWording e ?req (Suc attempt)"
        by simp
      from retry True show ?thesis
        by (subst subscribeLoop.simps, subst specExecute.simps)
          (auto simp add: ih subscribeAttempt_classify Let_def
            split: verdict.splits if_splits prod.splits)
    qed
  qed
qed

lemma chargeLoop_specExecute:
  "chargeLoop e d n =
     specExecute chargeWording e (ChargeOutboundCreate (msisdn d) (subscriptionPlan d)) n"
proof (induction e d n rule: chargeLoop.induct)
  case (1 e d attempt)
  let ?req = "ChargeOutboundCreate (msisdn d) (subscriptionPlan d)"
  show ?case
  proof (cases "int attempt \<le> maxAttempts e")
    case False
    then show ?thesis
      by (subst chargeLoop.simps, subst specExecute.simps)
        (simp add: chargeWording_def)
  next
    case True
    show ?thesis
    proof (cases "chargeAttempt e attempt (gateway e ?req attempt) = Retry")
      case False
      with True show ?thesis
        by (subst chargeLoop.simps, subst specExecute.simps)
          (auto simp add: chargeAttempt_classify deliveryFailed_def chargeWording_def
            split: verdict.splits if_splits)
    next
      case retry: True
      from 1[OF refl True retry]
      have "chargeLoop e d (attempt + 1) = specExecute chargeWording e ?req (attempt + 1)" .
      then have ih: "chargeLoop e d (Suc attempt) = specExecute chargeWording e ?req (Suc attempt)"
        by simp
      from retry True show ?thesis
        by (subst chargeLoop.simps, subst specExecute.simps)
          (auto simp add: ih chargeAttempt_classify Let_def
            split: verdict.splits if_splits prod.splits)
    qed
  qed
qed

text \<open>
  Claim C3, as stated, has \<^verbatim>\<open>sendSms\<close> treat a response without the success indicator as a
  failure. \<^verbatim>\<open>sendSms\<close> returns the body of such a response after its single POST, where
  \<^verbatim>\<open>subscribeUser\<close>, given the same responses, fails after five attempts.
\<close>

theorem sendSms_silent_response_counterexample:
  "sendSms (sampleEnv None (Resolved (Some silentBody)))
       \<lparr> sms_to = ''2547000000'', sms_message = ''Welcome'' \<rparr> =
     (Inr (Some silentBody), [Post (SmsOutboundSend ''2547000000'' ''Welcome'')])
   \<and> fst (subscribeUser (sampleEnv None (Resolved (Some silentBody))) sampleUser) =
       Inl (Error ''Failed to subscribe user after 5 attempts: Subscription request did not succeed'')"
proof -
  let ?e = "sampleEnv None (Resolved (Some silentBody))"
  have a: "sendSms ?e \<lparr> sms_to = ''2547000000'', sms_message = ''Welcome'' \<rparr> =
     (Inr (Some silentBody), [Post (SmsOutboundSend ''2547000000'' ''Welcome'')])"
    by (simp add: sendSms_def sampleEnv_def)
  have m: "maxAttempts ?e = 5" by (simp add: maxAttempts_def numberOr_def sampleEnv_def)
  have sb: "\<not> data_success silentBody" "data_message silentBody = None"
    "data_error silentBody = None"
    by (simp_all add: silentBody_def)
  have gw: "gateway ?e req n = Resolved (Some silentBody)" for req n
    by (simp add: sampleEnv_def)
  have r: "subscribeAttempt ?e n (gateway ?e req n) =
      (if n < 5 then Retry
       else Throw (''Failed to subscribe user after '' @ showNat n @ '' '' @ attemptWord n
                   @ '': Subscription request did not succeed''))" for n req
    using gw[of req n]
    by (simp add: subscribeAttempt_def m isRetryable_def succeeded_def sb orElseStr_def)
  have "fst (subscribeLoop ?e sampleUser 5) =
      Inl (Error ''Failed to subscribe user after 5 attempts: Subscription request did not succeed'')"
    by (subst subscribeLoop.simps) (simp add: m r Let_def showNat.simps attemptWord_def)
  then have "fst (subscribeLoop ?e sampleUser 4) =
      Inl (Error ''Failed to subscribe user after 5 attempts: Subscription request did not succeed'')"
    by (subst subscribeLoop.simps) (simp add: m r Let_def case_prod_beta)
  then have "fst (subscribeLoop ?e sampleUser 3) =
      Inl (Error ''Failed to subscribe user after 5 attempts: Subscription request did not succeed'')"
    by (subst subscribeLoop.simps) (simp add: m r Let_def case_prod_beta)
  then have "fst (subscribeLoop ?e sampleUser 2) =
      Inl (Error ''Failed to subscribe user after 5 attempts: Subscription request did not succeed'')"
    by (subst subscribeLoop.simps) (simp add: m r Let_def case_prod_beta)
  then have "fst (subscribeLoop ?e sampleUser (Suc (Suc 0))) =
      Inl (Error ''Failed to subscribe user after 5 attempts: Subscription request did not succeed'')"
    by (simp add: numeral_2_eq_2)
  then have "fst (subscribeLoop ?e sampleUser 1) =
      Inl (Error ''Failed to subscribe user after 5 attempts: Subscription request did not succeed'')"
    by (subst subscribeLoop.simps) (simp add: m r Let_def case_prod_beta)
  with a show ?thesis by (simp only: subscribeUser_def) 
qed

text \<open>
  Claim C3, amended: \<^verbatim>\<open>subscribeUser\<close> and \<^verbatim>\<open>chargeUser\<close> are the one executor of the
  specification, with its retries, backoff and success indicator, and differ only in the
  request and the wording of their errors. \<^verbatim>\<open>sendSms\<close> is not: it makes exactly one POST
  and never sleeps, returns the body of any response that resolves, and raises on any
  rejection.
\<close>

theorem subscribe_and_charge_share_executor:
  "subscribeUser e d =
     specExecute subscribeWording e (SubscriptionOutboundCreate (msisdn d) (subscriptionPlan d)) 1
   \<and> chargeUser e d =
     specExecute chargeWording e (ChargeOutboundCreate (msisdn d) (subscriptionPlan d)) 1
   \<and> posts (snd (sendSms e opts)) = 1 \<and> sleeps (snd (sendSms e opts)) = 0
   \<and> (gateway e (SmsOutboundSend (sms_to opts) (sms_message opts)) 1 = Resolved data \<longrightarrow>
        fst (sendSms e opts) = Inr data)
   \<and> (gateway e (SmsOutboundSend (sms_to opts) (sms_message opts)) 1 =
          Rejected status respMessage errMessage \<longrightarrow>
        fst (sendSms e opts) = Inl (Error (orElseStr respMessage errMessage)))"
proof -
  have "posts (snd (sendSms e opts)) = 1 \<and> sleeps (snd (sendSms e opts)) = 0"
    by (simp add: sendSms_def Let_def posts_def sleeps_def split: reply.splits)
  moreover have "gateway e (SmsOutboundSend (sms_to opts) (sms_message opts)) 1 = Resolved data \<longrightarrow>
        fst (sendSms e opts) = Inr data"
    by (simp add: sendSms_def Let_def)
  moreover have "gateway e (SmsOutboundSend (sms_to opts) (sms_message opts)) 1 =
          Rejected status respMessage errMessage \<longrightarrow>
        fst (sendSms e opts) = Inl (Error (orElseStr respMessage errMessage))"
    by (simp add: sendSms_def Let_def)
  ultimately show ?thesis
    unfolding subscribeUser_def chargeUser_def
    using subscribeLoop_specExecute[of e d 1] chargeLoop_specExecute[of e d 1]
    by blast
qed

theorem subscribe_and_charge_share_executor_witness:
  "gateway (sampleEnv (Some 2) (Rejected (Some 503) None ''Service Unavailable''))
      (SmsOutboundSend ''2547000000'' ''Welcome'') 1 =
     Rejected (Some 503) None ''Service Unavailable''
   \<and> sendSms (sampleEnv (Some 2) (Rejected (Some 503) None ''Service Unavailable''))
        \<lparr> sms_to = ''2547000000'', sms_message = ''Welcome'' \<rparr> =
       (Inl (Error ''Service Unavailable''), [Post (SmsOutboundSend ''2547000000'' ''Welcome'')])
   \<and> chargeUser (sampleEnv (Some 2) (Rejected (Some 503) None ''Service Unavailable'')) sampleUser =
       specExecute chargeWording (sampleEnv (Some 2) (Rejected (Some 503) None ''Service Unavailable''))
         (ChargeOutboundCreate ''2547000000'' DAILY) 1
   \<and> subscribeUser (sampleEnv (Some 2) (Rejected (Some 503) None ''Service Unavailable'')) sampleUser =
       specExecute subscribeWording (sampleEnv (Some 2) (Rejected (Some 503) None ''Service Unavailable''))
         (SubscriptionOutboundCreate ''2547000000'' DAILY) 1
   \<and> specExecute subscribeWording (sampleEnv (Some 2) (Rejected (Some 503) None ''Service Unavailable''))
         (SubscriptionOutboundCreate ''2547000000'' DAILY) 1 =
       (Inl (Error ''Failed to subscribe user after 2 attempts: Service Unavailable''),
        [Post (SubscriptionOutboundCreate ''2547000000'' DAILY), Sleep 550,
         Post (SubscriptionOutboundCreate ''2547000000'' DAILY)])"
proof -
  let ?e = "sampleEnv (Some 2) (Rejected (Some 503) None ''Service Unavailable'')"
  let ?o = "\<lparr> sms_to = ''2547000000'', sms_message = ''Welcome'' \<rparr>"
  have g: "gateway ?e (SmsOutboundSend (sms_to ?o) (sms_message ?o)) 1 =
     Rejected (Some 503) None ''Service Unavailable''"
    by (simp add: sampleEnv_def)
  have u: "msisdn sampleUser = ''2547000000''" "subscriptionPlan sampleUser = DAILY"
    by (simp_all add: sampleUser_def)
  note t = subscribe_and_charge_share_executor[of ?e sampleUser ?o "None" "Some 503" None
      "''Service Unavailable''"]
  from t g have "fst (sendSms ?e ?o) = Inl (Error (orElseStr None ''Service Unavailable''))"
    by blast
  then have s1: "fst (sendSms ?e ?o) = Inl (Error ''Service Unavailable'')"
    by (simp add: orElseStr_None)
  have s2: "snd (sendSms ?e ?o) = [Post (SmsOutboundSend ''2547000000'' ''Welcome'')]"
    by (simp add: sendSms_def sampleEnv_def)
  from s1 s2 have s: "sendSms ?e ?o =
       (Inl (Error ''Service Unavailable''), [Post (SmsOutboundSend ''2547000000'' ''Welcome'')])"
    by (simp add: prod_eq_iff)
  from t have c: "chargeUser ?e sampleUser =
       specExecute chargeWording ?e (ChargeOutboundCreate ''2547000000'' DAILY) 1"
    and b: "subscribeUser ?e sampleUser =
       specExecute subscribeWording ?e (SubscriptionOutboundCreate ''2547000000'' DAILY) 1"
    unfolding u by blast+
  have m: "maxAttempts ?e = 2" by (simp add: maxAttempts_def numberOr_def sampleEnv_def)
  have cl: "classify subscribeWording (gateway ?e req n) = RetryableFailure ''Service Unavailable''"
    for req n
    by (simp add: classify_def sampleEnv_def isRetryable_def orElseStr_def)
  have d: "computeDelay ?e (random ?e req 1) 1 = 550" for req
    by (simp add: computeDelay_def sampleEnv_def maxDelayMs_def baseDelayMs_def numberOr_def
        jitter_half)
  have w: "afterPrefix subscribeWording = ''Failed to subscribe user after ''"
    by (simp add: subscribeWording_def)
  have x2: "specExecute subscribeWording ?e (SubscriptionOutboundCreate ''2547000000'' DAILY) 2 =
       (Inl (Error ''Failed to subscribe user after 2 attempts: Service Unavailable''),
        [Post (SubscriptionOutboundCreate ''2547000000'' DAILY)])"
    by (subst specExecute.simps)
      (simp add: m cl deliveryFailed_def w showNat.simps attemptWord_def)
  have x1: "specExecute subscribeWording ?e (SubscriptionOutboundCreate ''2547000000'' DAILY) 1 =
       (Inl (Error ''Failed to subscribe user after 2 attempts: Service Unavailable''),
        [Post (SubscriptionOutboundCreate ''2547000000'' DAILY), Sleep 550,
         Post (SubscriptionOutboundCreate ''2547000000'' DAILY)])"
    by (subst specExecute.simps) (simp add: m cl d x2 del: One_nat_def)
  from g s c b x1 show ?thesis by simp
qed

section \<open>Properties of the handler\<close>

subsection \<open>Facts about strings\<close>

lemma last_dropWhile_nonempty: "dropWhile P xs \<noteq> [] \<Longrightarrow> last (dropWhile P xs) = last xs"
  by (induction xs) (auto split: if_splits)

lemma trim_trim: "trim (trim s) = trim s"
proof -
  let ?P = isWhiteSpace
  let ?u = "dropWhile ?P s"
  let ?v = "dropWhile ?P (rev ?u)"
  have t: "trim s = rev ?v" by (simp add: trim_def)
  have "dropWhile ?P (rev ?v) = rev ?v"
  proof (cases "?v = []")
    case True
    show ?thesis unfolding True by simp
  next
    case False
    have u: "?u \<noteq> []"
    proof
      assume a: "?u = []"
      have "?v = []" unfolding a by simp
      with False show False by contradiction
    qed
    from False have "hd (rev ?v) = last ?v" by (simp add: hd_rev)
    also from False have "\<dots> = last (rev ?u)" by (rule last_dropWhile_nonempty)
    also from u have "\<dots> = hd ?u" by (simp add: last_rev)
    finally have "hd (rev ?v) = hd ?u" .
    moreover from u have "\<not> ?P (hd ?u)" by (rule hd_dropWhile)
    ultimately show ?thesis by (simp add: dropWhile_eq_self_iff)
  qed
  then have "trim (rev ?v) = rev (dropWhile ?P ?v)" by (simp add: trim_def)
  then show ?thesis by (simp add: t)
qed

lemma answersMatch_trim: "answersMatch expected (trim m) = answersMatch expected m"
  by (simp add: answersMatch_def trim_trim)

lemma keyword_BTD: "toUpperCase (trim ''BTD'') = ''BTD''"
  by (simp add: toUpperCase_def trim_def isWhiteSpace_def upperChar_def)

subsection \<open>Facts about the calls when the gateway accepts\<close>

lemma sendSms_resolved:
  "gateway e (SmsOutboundSend (sms_to opts) (sms_message opts)) 1 = Resolved data \<Longrightarrow>
     sendSms e opts = (Inr data, [Post (SmsOutboundSend (sms_to opts) (sms_message opts))])"
  by (simp add: sendSms_def Let_def)

lemma subscribeUser_accepted:
  assumes "1 \<le> maxAttempts e"
    and "gateway e (SubscriptionOutboundCreate (msisdn d) (subscriptionPlan d)) 1 = Resolved (Some body)"
    and "data_success body"
  shows "subscribeUser e d =
     (Inr (Some body), [Post (SubscriptionOutboundCreate (msisdn d) (subscriptionPlan d))])"
  unfolding subscribeUser_def using assms
  by (subst subscribeLoop.simps) (simp add: Let_def subscribeAttempt_def succeeded_def)

lemma chargeUser_accepted:
  assumes "1 \<le> maxAttempts e"
    and "gateway e (ChargeOutboundCreate (msisdn d) (subscriptionPlan d)) 1 = Resolved (Some body)"
    and "data_success body"
  shows "chargeUser e d =
     (Inr (Some body), [Post (ChargeOutboundCreate (msisdn d) (subscriptionPlan d))])"
  unfolding chargeUser_def using assms
  by (subst chargeLoop.simps) (simp add: Let_def chargeAttempt_def succeeded_def)

lemma smsIncoming_reply:
  assumes "sender \<noteq> []" and "message \<noteq> []"
    and "composeReply e table store sender message = (Inr responseMsg, store', evs)"
    and "gateway e (SmsOutboundSend sender responseMsg) 1 = Resolved data"
  shows "smsIncoming e table store \<lparr> body_from = Some sender, body_message = Some message \<rparr> =
     (Inr (HttpResponse 200 ''ok''), store', evs @ [Post (SmsOutboundSend sender responseMsg)])"
  using assms by (simp add: smsIncoming_def sendSms_resolved)

lemma smsIncoming_BTD:
  assumes gw: "\<forall>req n. \<exists>body. gateway e req n = Resolved (Some body) \<and> data_success body"
    and att: "1 \<le> maxAttempts e"
    and tab: "table \<noteq> []"
    and snd: "sender \<noteq> []"
  shows "smsIncoming e table store \<lparr> body_from = Some sender, body_message = Some ''BTD'' \<rparr> =
     (Inr (HttpResponse 200 ''ok''),
      snd (startQuiz table sender store),
      [Post (SmsOutboundSend sender welcomeDaily),
       Post (SubscriptionOutboundCreate sender DAILY),
       Post (ChargeOutboundCreate sender DAILY),
       SelectQuestions,
       Post (SmsOutboundSend sender
         (''Quiz started!'' @ nl @ ''Q1: '' @ templateText (qtext (toQuestion (hd table)))
          @ optionLines (toQuestion (hd table))))])"
proof -
  let ?reply = "''Quiz started!'' @ nl @ ''Q1: '' @ templateText (qtext (toQuestion (hd table)))
          @ optionLines (toQuestion (hd table))"
  from gw obtain b1 where b1: "gateway e (SmsOutboundSend sender welcomeDaily) 1 = Resolved (Some b1)"
    by blast
  from gw obtain b2 where b2: "gateway e (SubscriptionOutboundCreate sender DAILY) 1 = Resolved (Some b2)"
    "data_success b2" by blast
  from gw obtain b3 where b3: "gateway e (ChargeOutboundCreate sender DAILY) 1 = Resolved (Some b3)"
    "data_success b3" by blast
  from gw obtain b4 where b4: "gateway e (SmsOutboundSend sender ?reply) 1 = Resolved (Some b4)"
    by blast
  have s1: "sendSms e \<lparr> sms_to = sender, sms_message = welcomeDaily \<rparr> =
      (Inr (Some b1), [Post (SmsOutboundSend sender welcomeDaily)])"
    using b1 by (simp add: sendSms_resolved)
  have s2: "subscribeUser e \<lparr> msisdn = sender, subscriptionPlan = DAILY \<rparr> =
      (Inr (Some b2), [Post (SubscriptionOutboundCreate sender DAILY)])"
    using subscribeUser_accepted[of e "\<lparr> msisdn = sender, subscriptionPlan = DAILY \<rparr>" b2] att b2
    by simp
  have s3: "chargeUser e \<lparr> msisdn = sender, subscriptionPlan = DAILY \<rparr> =
      (Inr (Some b3), [Post (ChargeOutboundCreate sender DAILY)])"
    using chargeUser_accepted[of e "\<lparr> msisdn = sender, subscriptionPlan = DAILY \<rparr>" b3] att b3
    by simp
  from tab have first: "fst (startQuiz table sender store) = Some (toQuestion (hd table))"
    by (cases table) (simp_all add: startQuiz_first getRandomQuestions_def itemAt_def)
  have calls: "andThen (sendSms e \<lparr> sms_to = sender, sms_message = welcomeDaily \<rparr>)
            (andThen (subscribeUser e \<lparr> msisdn = sender, subscriptionPlan = DAILY \<rparr>)
               (chargeUser e \<lparr> msisdn = sender, subscriptionPlan = DAILY \<rparr>)) =
        (Inr (Some b3), [Post (SmsOutboundSend sender welcomeDaily),
           Post (SubscriptionOutboundCreate sender DAILY), Post (ChargeOutboundCreate sender DAILY)])"
    by (simp add: s1 s2 s3 andThen_def)
  have branch: "composeReply e table store sender ''BTD'' =
      (Inr ?reply, snd (startQuiz table sender store),
       [Post (SmsOutboundSend sender welcomeDaily),
        Post (SubscriptionOutboundCreate sender DAILY), Post (ChargeOutboundCreate sender DAILY),
        SelectQuestions])"
    unfolding composeReply_def keyword_BTD welcomeDaily_def[symmetric]
    using first
    by (cases "startQuiz table sender store")
      (simp add: calls startBranch_def quizStartedMessage_def)
  have "smsIncoming e table store \<lparr> body_from = Some sender, body_message = Some ''BTD'' \<rparr> =
     (Inr (HttpResponse 200 ''ok''), snd (startQuiz table sender store),
      [Post (SmsOutboundSend sender welcomeDaily),
        Post (SubscriptionOutboundCreate sender DAILY), Post (ChargeOutboundCreate sender DAILY),
        SelectQuestions] @ [Post (SmsOutboundSend sender ?reply)])"
    by (rule smsIncoming_reply[OF snd _ branch b4]) simp
  then show ?thesis by (simp only: append_Cons append_Nil)
qed

subsection \<open>Facts about the answer branch\<close>

lemma composeReply_answer:
  "toUpperCase (trim m) \<notin> set [''BTD'', ''BTW'', ''BTM''] \<Longrightarrow>
     composeReply e table store sender m = answerBranch store sender m"
  by (simp add: composeReply_def)

lemma applyAnswer_last_correct:
  assumes "currentQuestionIndex session + 1 = length (questions session)"
    and "answersMatch expected m"
  shows "applyAnswer session expected m =
     session\<lparr>currentQuestionIndex := length (questions session),
              currentScore := currentScore session + 1, isCompleted := True,
              aggregateScore := aggregateScore session + currentScore session + 1\<rparr>"
  using assms by (simp add: applyAnswer_def Let_def)

lemma answerBranch_last:
  assumes "store sender = Some session" "\<not> isCompleted session"
    and "currentQuestionIndex session + 1 = length (questions session)"
    and "correctAnswer (questions session ! currentQuestionIndex session) = Some expected"
    and "answersMatch expected m"
  shows "answerBranch store sender m =
     (Inr (''Quiz complete! Your score: '' @ showNat (currentScore session + 1)
           @ ''/10. Aggregate: '' @ showNat (aggregateScore session + currentScore session + 1)),
      (if sender = ''__proto__''
       then store(sender \<mapsto>
              session\<lparr>currentQuestionIndex := length (questions session),
                       currentScore := currentScore session + 1, isCompleted := True,
                       aggregateScore := aggregateScore session + currentScore session + 1\<rparr>)
       else store(sender := None)), [])"
proof -
  let ?q = "questions session ! currentQuestionIndex session"
  from assms(3) have q: "itemAt (questions session) (currentQuestionIndex session) = Some ?q"
    by (simp add: itemAt_def)
  have m: "answersMatch expected (trim m)"
    using assms(5) by (simp add: answersMatch_trim)
  note a = applyAnswer_last_correct[OF assms(3) m]
  have "processAnswer sender (trim m) store =
      (Inr (Answered \<lparr> correct = True, nextQuestion = None, isDone = True,
              score = currentScore session + 1,
              resultAggregate = aggregateScore session + (currentScore session + 1) \<rparr>),
       (if sender = ''__proto__''
        then store(sender \<mapsto>
              session\<lparr>currentQuestionIndex := length (questions session),
                       currentScore := currentScore session + 1, isCompleted := True,
                       aggregateScore := aggregateScore session + currentScore session + 1\<rparr>)
        else store(sender := None)))"
    using processAnswer_active[of store sender session ?q expected "trim m", OF assms(1,2) q assms(4)]
      assms(3) m
    by (simp add: Let_def a del: fun_upd_apply)
  then show ?thesis
    by (simp add: answerBranch_def add.assoc del: fun_upd_apply)
qed

lemma answerBranch_middle:
  assumes "store sender = Some session" "\<not> isCompleted session"
    and "currentQuestionIndex session + 1 < length (questions session)"
    and "correctAnswer (questions session ! currentQuestionIndex session) = Some expected"
    and "answersMatch expected m"
  shows "\<exists>reply. answerBranch store sender m =
     (Inr reply,
      store(sender \<mapsto> session\<lparr>currentScore := currentScore session + 1,
                                 currentQuestionIndex := currentQuestionIndex session + 1\<rparr>),
      [])"
proof -
  let ?q = "questions session ! currentQuestionIndex session"
  let ?s' = "session\<lparr>currentScore := currentScore session + 1,
                      currentQuestionIndex := currentQuestionIndex session + 1\<rparr>"
  from assms(3) have q: "itemAt (questions session) (currentQuestionIndex session) = Some ?q"
    by (simp add: itemAt_def)
  have m: "answersMatch expected (trim m)"
    using assms(5) by (simp add: answersMatch_trim)
  have a: "applyAnswer session expected (trim m) = ?s'"
    using m assms(3) by (simp add: applyAnswer_def Let_def)
  have "\<exists>r. processAnswer sender (trim m) store = (Inr (Answered r), store(sender \<mapsto> ?s'))
      \<and> \<not> isDone r"
    using processAnswer_active[of store sender session ?q expected "trim m", OF assms(1,2) q assms(4)]
      assms(3)
    by (simp add: Let_def a)
  then obtain r where r: "processAnswer sender (trim m) store = (Inr (Answered r), store(sender \<mapsto> ?s'))"
    "\<not> isDone r" by blast
  show ?thesis
    by (cases "nextQuestion r") (simp_all add: answerBranch_def r del: fun_upd_apply)
qed

lemma smsIncomingAll_Cons:
  "smsIncoming e table store \<lparr> body_from = Some sender, body_message = Some m \<rparr> = (res, store', evs)
   \<Longrightarrow> smsIncomingAll e table store' sender ms = (rest, store'')
   \<Longrightarrow> smsIncomingAll e table store sender (m # ms) = ((res, evs) # rest, store'')"
  by simp

lemma all_correct_answers:
  assumes gw: "\<forall>req n. \<exists>body. gateway e req n = Resolved (Some body) \<and> data_success body"
    and sender: "sender \<noteq> []"
    and "store sender = Some session" "\<not> isCompleted session"
    and "currentQuestionIndex session < length (questions session)"
    and "list_all2 answersCorrectly
           (drop (currentQuestionIndex session) (questions session)) answers"
  shows "\<exists>replies. smsIncomingAll e table store sender answers =
       (replies,
        (if sender = ''__proto__''
         then store(sender \<mapsto>
                session\<lparr>currentQuestionIndex := length (questions session),
                         currentScore := currentScore session + length answers,
                         isCompleted := True,
                         aggregateScore :=
                           aggregateScore session + currentScore session + length answers\<rparr>)
         else store(sender := None)))
     \<and> length replies = length answers
     \<and> last replies =
         (Inr (HttpResponse 200 ''ok''),
          [Post (SmsOutboundSend sender
             (''Quiz complete! Your score: '' @ showNat (currentScore session + length answers)
              @ ''/10. Aggregate: ''
              @ showNat (aggregateScore session + currentScore session + length answers)))])"
  using assms(3-)
proof (induction answers arbitrary: store session)
  case Nil
  then show ?case by simp
next
  case (Cons m ms)
  let ?i = "currentQuestionIndex session"
  let ?q = "questions session ! ?i"
  let ?final = "\<lambda>(st :: sessionStore) s n.
        (if sender = ''__proto__''
         then st(sender \<mapsto>
                s\<lparr>currentQuestionIndex := length (questions s),
                   currentScore := currentScore s + n, isCompleted := True,
                   aggregateScore := aggregateScore s + currentScore s + n\<rparr>)
         else st(sender := None))"
  from Cons.prems(3) have dr: "drop ?i (questions session) = ?q # drop (?i + 1) (questions session)"
    by (simp add: Cons_nth_drop_Suc)
  with Cons.prems(4) have good: "answersCorrectly ?q m"
    and rest: "list_all2 answersCorrectly (drop (?i + 1) (questions session)) ms"
    by simp_all
  from good have m1: "m \<noteq> []"
    and m2: "toUpperCase (trim m) \<notin> set [''BTD'', ''BTW'', ''BTM'']"
    by (simp_all add: answersCorrectly_def)
  from good obtain expected where ex: "correctAnswer ?q = Some expected"
    and m3: "answersMatch expected m"
    by (auto simp add: answersCorrectly_def split: option.splits)
  show ?case
  proof (cases "ms = []")
    case True
    with rest have "drop (?i + 1) (questions session) = []" by simp
    with Cons.prems(3) have lastq: "?i + 1 = length (questions session)" by simp
    let ?reply = "''Quiz complete! Your score: '' @ showNat (currentScore session + 1)
           @ ''/10. Aggregate: '' @ showNat (aggregateScore session + currentScore session + 1)"
    have cr: "composeReply e table store sender m = (Inr ?reply, ?final store session 1, [])"
      using answerBranch_last[of store sender session expected m, OF Cons.prems(1,2) lastq ex m3]
      by (simp only: composeReply_answer[OF m2])
    from gw obtain b where b: "gateway e (SmsOutboundSend sender ?reply) 1 = Resolved (Some b)"
      by blast
    have one: "smsIncoming e table store \<lparr> body_from = Some sender, body_message = Some m \<rparr> =
       (Inr (HttpResponse 200 ''ok''), ?final store session 1,
        [] @ [Post (SmsOutboundSend sender ?reply)])"
      by (rule smsIncoming_reply[OF sender m1 cr b])
    have nil: "smsIncomingAll e table (?final store session 1) sender [] =
        ([], ?final store session 1)"
      by (simp del: fun_upd_apply)
    have run: "smsIncomingAll e table store sender (m # ms) =
       ([(Inr (HttpResponse 200 ''ok''), [] @ [Post (SmsOutboundSend sender ?reply)])],
        ?final store session 1)"
      unfolding True by (rule smsIncomingAll_Cons[OF one nil])
    have f: "?final store session 1 = ?final store session (length (m # ms))"
      using True by simp
    have l: "length [(Inr (HttpResponse 200 ''ok'') :: exn + httpResponse,
         [] @ [Post (SmsOutboundSend sender ?reply)])] = length (m # ms)"
      using True by simp
    have e: "last [(Inr (HttpResponse 200 ''ok'') :: exn + httpResponse,
         [] @ [Post (SmsOutboundSend sender ?reply)])] =
         (Inr (HttpResponse 200 ''ok''),
          [Post (SmsOutboundSend sender
             (''Quiz complete! Your score: '' @ showNat (currentScore session + length (m # ms))
              @ ''/10. Aggregate: ''
              @ showNat (aggregateScore session + currentScore session + length (m # ms))))])"
      using True by simp
    from run have run': "smsIncomingAll e table store sender (m # ms) =
       ([(Inr (HttpResponse 200 ''ok''), [] @ [Post (SmsOutboundSend sender ?reply)])],
        ?final store session (length (m # ms)))"
      by (simp only: f)
    from run' l e show ?thesis by blast
  next
    case False
    with rest have "drop (?i + 1) (questions session) \<noteq> []" by auto
    then have mid: "?i + 1 < length (questions session)" by simp
    let ?s' = "session\<lparr>currentScore := currentScore session + 1,
                      currentQuestionIndex := ?i + 1\<rparr>"
    let ?store' = "store(sender \<mapsto> ?s')"
    from answerBranch_middle[of store sender session expected m, OF Cons.prems(1,2) mid ex m3]
    obtain reply where "answerBranch store sender m = (Inr reply, ?store', [])" by blast
    then have cr: "composeReply e table store sender m = (Inr reply, ?store', [])"
      by (simp only: composeReply_answer[OF m2])
    from gw obtain b where b: "gateway e (SmsOutboundSend sender reply) 1 = Resolved (Some b)"
      by blast
    have one: "smsIncoming e table store \<lparr> body_from = Some sender, body_message = Some m \<rparr> =
       (Inr (HttpResponse 200 ''ok''), ?store', [] @ [Post (SmsOutboundSend sender reply)])"
      by (rule smsIncoming_reply[OF sender m1 cr b])
    have h1: "?store' sender = Some ?s'" by simp
    have h2: "\<not> isCompleted ?s'" using Cons.prems(2) by simp
    have h3: "currentQuestionIndex ?s' < length (questions ?s')" using mid by simp
    have h4: "list_all2 answersCorrectly (drop (currentQuestionIndex ?s') (questions ?s')) ms"
      using rest by simp
    from Cons.IH[of ?store' ?s', OF h1 h2 h3 h4]
    obtain replies where r0: "smsIncomingAll e table ?store' sender ms =
          (replies, ?final ?store' ?s' (length ms))"
      and r1: "length replies = length ms"
      and r2: "last replies =
         (Inr (HttpResponse 200 ''ok''),
          [Post (SmsOutboundSend sender
             (''Quiz complete! Your score: '' @ showNat (currentScore ?s' + length ms)
              @ ''/10. Aggregate: ''
              @ showNat (aggregateScore ?s' + currentScore ?s' + length ms)))])"
      by blast
    have "?final ?store' ?s' (length ms) = ?final store session (length (m # ms))" by simp
    with r0 have r0': "smsIncomingAll e table ?store' sender ms =
        (replies, ?final store session (length (m # ms)))"
      by (simp only:)
    have run: "smsIncomingAll e table store sender (m # ms) =
       ((Inr (HttpResponse 200 ''ok''), [] @ [Post (SmsOutboundSend sender reply)]) # replies,
        ?final store session (length (m # ms)))"
      by (rule smsIncomingAll_Cons[OF one r0'])
    from r1 False have ne: "replies \<noteq> []" by auto
    have l: "length ((Inr (HttpResponse 200 ''ok''), [] @ [Post (SmsOutboundSend sender reply)]) # replies)
        = length (m # ms)"
      using r1 by simp
    have e: "last ((Inr (HttpResponse 200 ''ok''), [] @ [Post (SmsOutboundSend sender reply)]) # replies) =
         (Inr (HttpResponse 200 ''ok''),
          [Post (SmsOutboundSend sender
             (''Quiz complete! Your score: '' @ showNat (currentScore session + length (m # ms))
              @ ''/10. Aggregate: ''
              @ showNat (aggregateScore session + currentScore session + length (m # ms))))])"
      using ne r2 by (simp add: add.assoc)
    from run l e show ?thesis by blast
  qed
qed

subsection \<open>The scenario of a daily quiz\<close>

lemma startedText:
  "templateText (qtext (toQuestion r)) @ optionLines (toQuestion r) =
     templateText (row_question r) @ nl @ ''A) '' @ templateText (row_optionA r)
     @ nl @ ''B) '' @ templateText (row_optionB r)
     @ nl @ ''C) '' @ templateText (row_optionC r)
     @ nl @ ''D) '' @ templateText (row_optionD r)"
  by (simp add: toQuestion_def optionLines_def optionText_def itemAt_def)

text \<open>
  Claim C9: when the gateway accepts every call, the table yields at least ten rows and a
  subscriber sends \<^verbatim>\<open>BTD\<close>, the handler posts the welcome message, then the subscription
  (DAILY), then the charge (DAILY), then queries the questions and starts the quiz, and
  replies \<^verbatim>\<open>Quiz started!\<close>, a line feed, \<^verbatim>\<open>Q1: \<close>, the first question and its four
  options. When the subscriber then answers the ten questions correctly, the last reply is
  exactly \<^verbatim>\<open>Quiz complete! Your score: 10/10. Aggregate: 10\<close> and the store has no session
  for the subscriber (for the subscriber \<^verbatim>\<open>__proto__\<close>, whose session is the prototype of
  the store, the session stays there, completed).
\<close>

theorem daily_quiz_scenario:
  assumes "\<forall>req n. \<exists>body. gateway e req n = Resolved (Some body) \<and> data_success body"
    and "1 \<le> maxAttempts e"
    and "10 \<le> length table"
    and "sender \<noteq> []"
    and "list_all2 answersCorrectly (getRandomQuestions table) answers"
  shows "smsIncoming e table store \<lparr> body_from = Some sender, body_message = Some ''BTD'' \<rparr> =
           (Inr (HttpResponse 200 ''ok''),
            snd (startQuiz table sender store),
            [Post (SmsOutboundSend sender welcomeDaily),
             Post (SubscriptionOutboundCreate sender DAILY),
             Post (ChargeOutboundCreate sender DAILY),
             SelectQuestions,
             Post (SmsOutboundSend sender
               (''Quiz started!'' @ nl @ ''Q1: '' @ templateText (row_question (hd table))
                @ nl @ ''A) '' @ templateText (row_optionA (hd table))
                @ nl @ ''B) '' @ templateText (row_optionB (hd table))
                @ nl @ ''C) '' @ templateText (row_optionC (hd table))
                @ nl @ ''D) '' @ templateText (row_optionD (hd table))))])
         \<and> (\<exists>replies.
               smsIncomingAll e table (snd (startQuiz table sender store)) sender answers =
                 (replies,
                  (if sender = ''__proto__''
                   then store(sender \<mapsto>
                          \<lparr> phoneNumber = sender, currentQuestionIndex = 10,
                            questions = getRandomQuestions table, currentScore = 10,
                            isCompleted = True, aggregateScore = 10 \<rparr>)
                   else store(sender := None)))
               \<and> length replies = 10
               \<and> last replies =
                   (Inr (HttpResponse 200 ''ok''),
                    [Post (SmsOutboundSend sender
                       ''Quiz complete! Your score: 10/10. Aggregate: 10'')]))"
proof -
  let ?session = "\<lparr> phoneNumber = sender, currentQuestionIndex = 0,
       questions = getRandomQuestions table, currentScore = 0, isCompleted = False,
       aggregateScore = 0 \<rparr>"
  let ?store = "store(sender \<mapsto> ?session)"
  from assms(3) have tab: "table \<noteq> []" by auto
  have len: "length (getRandomQuestions table) = 10"
    using assms(3) by (simp add: length_getRandomQuestions)
  with assms(5) have la: "length answers = 10" by (simp add: list_all2_lengthD[symmetric])
  have start: "smsIncoming e table store \<lparr> body_from = Some sender, body_message = Some ''BTD'' \<rparr> =
           (Inr (HttpResponse 200 ''ok''),
            snd (startQuiz table sender store),
            [Post (SmsOutboundSend sender welcomeDaily),
             Post (SubscriptionOutboundCreate sender DAILY),
             Post (ChargeOutboundCreate sender DAILY),
             SelectQuestions,
             Post (SmsOutboundSend sender
               (''Quiz started!'' @ nl @ ''Q1: '' @ templateText (row_question (hd table))
                @ nl @ ''A) '' @ templateText (row_optionA (hd table))
                @ nl @ ''B) '' @ templateText (row_optionB (hd table))
                @ nl @ ''C) '' @ templateText (row_optionC (hd table))
                @ nl @ ''D) '' @ templateText (row_optionD (hd table))))])"
    using smsIncoming_BTD[OF assms(1,2) tab assms(4), of store]
    by (simp only: startedText)
  have s: "snd (startQuiz table sender store) = ?store" by (rule startQuiz_store)
  have h1: "?store sender = Some ?session" by simp
  have h2: "\<not> isCompleted ?session" by simp
  have h3: "currentQuestionIndex ?session < length (questions ?session)" by (simp add: len)
  have h4: "list_all2 answersCorrectly
      (drop (currentQuestionIndex ?session) (questions ?session)) answers"
    using assms(5) by simp
  let ?final = "(if sender = ''__proto__''
                   then store(sender \<mapsto>
                          \<lparr> phoneNumber = sender, currentQuestionIndex = 10,
                            questions = getRandomQuestions table, currentScore = 10,
                            isCompleted = True, aggregateScore = 10 \<rparr>)
                   else store(sender := None))"
  from all_correct_answers[of e sender ?store ?session answers table, OF assms(1) assms(4) h1 h2 h3 h4]
  obtain replies where r0: "smsIncomingAll e table ?store sender answers =
       (replies,
        (if sender = ''__proto__''
         then ?store(sender \<mapsto>
                ?session\<lparr>currentQuestionIndex := length (questions ?session),
                         currentScore := currentScore ?session + length answers,
                         isCompleted := True,
                         aggregateScore :=
                           aggregateScore ?session + currentScore ?session + length answers\<rparr>)
         else ?store(sender := None)))"
    and r1: "length replies = length answers"
    and r2: "last replies =
         (Inr (HttpResponse 200 ''ok''),
          [Post (SmsOutboundSend sender
             (''Quiz complete! Your score: '' @ showNat (currentScore ?session + length answers)
              @ ''/10. Aggregate: ''
              @ showNat (aggregateScore ?session + currentScore ?session + length answers)))])"
    by blast
  have "(if sender = ''__proto__''
         then ?store(sender \<mapsto>
                ?session\<lparr>currentQuestionIndex := length (questions ?session),
                         currentScore := currentScore ?session + length answers,
                         isCompleted := True,
                         aggregateScore :=
                           aggregateScore ?session + currentScore ?session + length answers\<rparr>)
         else ?store(sender := None)) = ?final"
    by (simp add: la len)
  with r0 s have a: "smsIncomingAll e table (snd (startQuiz table sender store)) sender answers =
      (replies, ?final)" by (simp only:)
  from r1 la have b: "length replies = 10" by simp
  have ten: "showNat 10 = ''10''" by (simp add: showNat.simps)
  from r2 have c: "last replies =
       (Inr (HttpResponse 200 ''ok''),
        [Post (SmsOutboundSend sender ''Quiz complete! Your score: 10/10. Aggregate: 10'')])"
    by (simp add: la ten)
  from start a b c show ?thesis by blast
qed

theorem daily_quiz_scenario_witness:
  "(\<forall>req n. \<exists>body. gateway (sampleEnv None (Resolved (Some acceptedBody))) req n =
        Resolved (Some body) \<and> data_success body)
   \<and> 1 \<le> maxAttempts (sampleEnv None (Resolved (Some acceptedBody)))
   \<and> 10 \<le> length sampleTable
   \<and> list_all2 answersCorrectly (getRandomQuestions sampleTable) sampleAnswers
   \<and> smsIncoming (sampleEnv None (Resolved (Some acceptedBody))) sampleTable Map.empty
        \<lparr> body_from = Some ''2547000000'', body_message = Some ''BTD'' \<rparr> =
       (Inr (HttpResponse 200 ''ok''),
        snd (startQuiz sampleTable ''2547000000'' Map.empty),
        [Post (SmsOutboundSend ''2547000000'' welcomeDaily),
         Post (SubscriptionOutboundCreate ''2547000000'' DAILY),
         Post (ChargeOutboundCreate ''2547000000'' DAILY),
         SelectQuestions,
         Post (SmsOutboundSend ''2547000000''
           (''Quiz started!'' @ nl @ ''Q1: Capital of Kenya?'' @ nl @ ''A) Nairobi'' @ nl
            @ ''B) Mombasa'' @ nl @ ''C) Kisumu'' @ nl @ ''D) Nakuru''))])
   \<and> (\<exists>replies.
         smsIncomingAll (sampleEnv None (Resolved (Some acceptedBody))) sampleTable
             (snd (startQuiz sampleTable ''2547000000'' Map.empty)) ''2547000000'' sampleAnswers =
           (replies, Map.empty)
         \<and> length replies = 10
         \<and> last replies =
             (Inr (HttpResponse 200 ''ok''),
              [Post (SmsOutboundSend ''2547000000''
                 ''Quiz complete! Your score: 10/10. Aggregate: 10'')]))"
proof -
  let ?e = "sampleEnv None (Resolved (Some acceptedBody))"
  have h1: "\<forall>req n. \<exists>body. gateway ?e req n = Resolved (Some body) \<and> data_success body"
    by (simp add: sampleEnv_def acceptedBody_def)
  have h2: "1 \<le> maxAttempts ?e" by (simp add: maxAttempts_def numberOr_def sampleEnv_def)
  have h3: "10 \<le> length sampleTable" by (simp add: sampleTable_def)
  have h4: "''2547000000'' \<noteq> []" by simp
  have h5: "list_all2 answersCorrectly (getRandomQuestions sampleTable) sampleAnswers"
    by (simp add: getRandomQuestions_def sampleTable_def sampleAnswers_def answersCorrectly_def
        answersMatch_def toQuestion_def sampleRow_def toUpperCase_def trim_def isWhiteSpace_def
        upperChar_def)
  have hd: "hd sampleTable = sampleRow ''1'' ''A''" by (simp add: sampleTable_def)
  have started: "''Quiz started!'' @ nl @ ''Q1: '' @ templateText (row_question (sampleRow ''1'' ''A''))
                @ nl @ ''A) '' @ templateText (row_optionA (sampleRow ''1'' ''A''))
                @ nl @ ''B) '' @ templateText (row_optionB (sampleRow ''1'' ''A''))
                @ nl @ ''C) '' @ templateText (row_optionC (sampleRow ''1'' ''A''))
                @ nl @ ''D) '' @ templateText (row_optionD (sampleRow ''1'' ''A'')) =
        ''Quiz started!'' @ nl @ ''Q1: Capital of Kenya?'' @ nl @ ''A) Nairobi'' @ nl
            @ ''B) Mombasa'' @ nl @ ''C) Kisumu'' @ nl @ ''D) Nakuru''"
    by (simp add: sampleRow_def templateText_def)
  have e: "(if ''2547000000'' = ''__proto__''
            then Map.empty(''2547000000'' \<mapsto>
                   \<lparr> phoneNumber = ''2547000000'', currentQuestionIndex = 10,
                     questions = getRandomQuestions sampleTable, currentScore = 10,
                     isCompleted = True, aggregateScore = 10 \<rparr>)
            else Map.empty(''2547000000'' := None)) = (Map.empty :: sessionStore)"
    by simp
  from daily_quiz_scenario[OF h1 h2 h3 h4 h5, of Map.empty]
  show ?thesis
    unfolding hd started e using h1 h2 h3 h5 by blast
qed

end
